theory Spec2Isabelle
  imports Complex_Main
begin

section \<open>Parsed documents\<close>

text \<open>
  The value that \<^verbatim>\<open>JSON.parse\<close> hands to \<^verbatim>\<open>loadTrackData\<close>, together with
  \<^verbatim>\<open>undefined\<close>, which property reads produce. A number is the real value of the
  double the parser produced (a literal beyond the range of doubles is outside this
  type). An object is its list of own properties, read with \<open>map_of\<close>.
\<close>

datatype jsval =
    JUndefined
  | JNull
  | JBool bool
  | JNum real
  | JStr string
  | JArr "jsval list"
  | JObj "(string \<times> jsval) list"

datatype error = TypeError

text \<open>
  \<^verbatim>\<open>v.k\<close> for the property names the program reads on documents
  (\<^verbatim>\<open>data\<close>, \<^verbatim>\<open>trackData\<close>, \<^verbatim>\<open>coordinates\<close>, \<^verbatim>\<open>lat\<close>, \<^verbatim>\<open>lon\<close>,
  \<^verbatim>\<open>ele\<close>): none of them is a property of a primitive wrapper or of an array, so only
  an object can hold one. Reading a property of \<^verbatim>\<open>null\<close> or \<^verbatim>\<open>undefined\<close> throws.
\<close>

fun getProp :: "jsval \<Rightarrow> string \<Rightarrow> error + jsval" where
  "getProp JUndefined k = Inl TypeError"
| "getProp JNull k = Inl TypeError"
| "getProp (JObj kvs) k = Inr (case map_of kvs k of None \<Rightarrow> JUndefined | Some v \<Rightarrow> v)"
| "getProp v k = Inr JUndefined"

text \<open>\<^verbatim>\<open>c[i]\<close> for \<open>i < 10\<close>: an array element, a one-character string, or the property
  named by the digit.\<close>

fun getIndex :: "jsval \<Rightarrow> nat \<Rightarrow> error + jsval" where
  "getIndex JUndefined i = Inl TypeError"
| "getIndex JNull i = Inl TypeError"
| "getIndex (JArr xs) i = Inr (if i < length xs then xs ! i else JUndefined)"
| "getIndex (JStr s) i = Inr (if i < length s then JStr [s ! i] else JUndefined)"
| "getIndex (JObj kvs) i =
     Inr (case map_of kvs [char_of (48 + i)] of None \<Rightarrow> JUndefined | Some v \<Rightarrow> v)"
| "getIndex v i = Inr JUndefined"

text \<open>Conversion to boolean, as \<^verbatim>\<open>&&\<close>, \<^verbatim>\<open>||\<close> and \<^verbatim>\<open>if\<close> apply it.\<close>

fun truthy :: "jsval \<Rightarrow> bool" where
  "truthy JUndefined = False"
| "truthy JNull = False"
| "truthy (JBool b) = b"
| "truthy (JNum x) = (x \<noteq> 0)"
| "truthy (JStr s) = (s \<noteq> [])"
| "truthy (JArr xs) = True"
| "truthy (JObj kvs) = True"

fun isArray :: "jsval \<Rightarrow> bool" where
  "isArray (JArr xs) = True"
| "isArray v = False"

text \<open>The elements of a value known to be an array.\<close>

fun arrayElems :: "jsval \<Rightarrow> jsval list" where
  "arrayElems (JArr xs) = xs"
| "arrayElems v = []"

section \<open>Shape matching of \<^verbatim>\<open>loadTrackData\<close>\<close>

text \<open>Sequencing of steps that may throw: the first exception ends the computation.\<close>

definition bindE :: "error + 'a \<Rightarrow> ('a \<Rightarrow> error + 'b) \<Rightarrow> error + 'b" where
  "bindE m f = (case m of Inl e \<Rightarrow> Inl e | Inr x \<Rightarrow> f x)"

text \<open>The callback of line 209: \<^verbatim>\<open>c => ({ lon: c[0], lat: c[1], ele: c[2] || 0 })\<close>.\<close>

definition coordToPoint :: "jsval \<Rightarrow> error + jsval" where
  "coordToPoint c =
     bindE (getIndex c 0) (\<lambda>c0.
     bindE (getIndex c 1) (\<lambda>c1.
     bindE (getIndex c 2) (\<lambda>c2.
       Inr (JObj [(''lon'', c0), (''lat'', c1),
                  (''ele'', if truthy c2 then c2 else JNum 0)]))))"

text \<open>\<^verbatim>\<open>Array.prototype.map\<close> with a callback that may throw.\<close>

fun mapE :: "('a \<Rightarrow> error + 'b) \<Rightarrow> 'a list \<Rightarrow> error + 'b list" where
  "mapE f [] = Inr []"
| "mapE f (x # xs) = bindE (f x) (\<lambda>y. bindE (mapE f xs) (\<lambda>ys. Inr (y # ys)))"

text \<open>
  \<^verbatim>\<open>json.coordinates.map(...)\<close>: only an array has a callable \<^verbatim>\<open>map\<close>; on any other
  truthy value the call throws.
\<close>

fun mapCoordinates :: "jsval \<Rightarrow> error + jsval list" where
  "mapCoordinates (JArr cs) = mapE coordToPoint cs"
| "mapCoordinates v = Inl TypeError"

text \<open>
  Lines 200 to 203, entered with the value of \<^verbatim>\<open>json.data.trackData\<close>: \<^verbatim>\<open>coords\<close>
  keeps its initial \<^verbatim>\<open>[]\<close> unless \<^verbatim>\<open>trackData\<close> is an array with an element.
\<close>

fun fromTrackData :: "jsval \<Rightarrow> jsval list" where
  "fromTrackData (JArr (x # xs)) = (if isArray x then arrayElems x else x # xs)"
| "fromTrackData v = []"

text \<open>
  Lines 195 to 210: the value of \<^verbatim>\<open>coords\<close> when line 212 is reached, or the exception
  thrown before. \<^verbatim>\<open>json.data && json.data.trackData\<close> reads \<^verbatim>\<open>trackData\<close> only when
  \<^verbatim>\<open>json.data\<close> is truthy, and is \<^verbatim>\<open>json.data\<close> itself otherwise.
\<close>

definition resolveCoords :: "jsval \<Rightarrow> error + jsval list" where
  "resolveCoords json =
     bindE (getProp json ''data'') (\<lambda>d.
     bindE (if truthy d then getProp d ''trackData'' else Inr d) (\<lambda>t.
       if truthy t then Inr (fromTrackData t)
       else if isArray json then Inr (arrayElems json)
       else bindE (getProp json ''coordinates'') (\<lambda>cs.
              if truthy cs then mapCoordinates cs else Inr [])))"

section \<open>Numbers\<close>

text \<open>
  A Number is \<^verbatim>\<open>NaN\<close>, an infinity or a finite real. The two zeros are not told apart:
  no value the functions below compute depends on the sign of a zero. Every finite result
  of an arithmetic operation is rounded to binary64, to the nearest double with ties to
  the even one: \<open>roundDouble\<close>. Its exponent is that of the argument, not below -1022
  (the subnormal range); a result of magnitude \<open>2 ^ 1024\<close> is an infinity.
\<close>

datatype jsnum = NaN | NegInfinity | Finite real | Infinity

definition rhe :: "real \<Rightarrow> int" where
  "rhe y =
     (let n = \<lfloor>y\<rfloor>
      in if y - of_int n < 1 / 2 then n
         else if 1 / 2 < y - of_int n then n + 1
         else if even n then n else n + 1)"

definition overflowBound :: real where
  "overflowBound = 2 ^ 1024"

definition roundDouble :: "real \<Rightarrow> jsnum" where
  "roundDouble x =
     (if x = 0 then Finite 0
      else (let e = max \<lfloor>log 2 \<bar>x\<bar>\<rfloor> (- 1022);
                y = of_int (rhe (x / 2 powi (e - 52))) * 2 powi (e - 52)
            in if overflowBound \<le> y then Infinity
               else if y \<le> - overflowBound then NegInfinity
               else Finite y))"

text \<open>\<^verbatim>\<open><\<close> on Numbers: false when an operand is \<^verbatim>\<open>NaN\<close>.\<close>

fun lt :: "jsnum \<Rightarrow> jsnum \<Rightarrow> bool" where
  "lt NaN y = False"
| "lt x NaN = False"
| "lt NegInfinity y = (y \<noteq> NegInfinity)"
| "lt (Finite x) NegInfinity = False"
| "lt (Finite x) (Finite y) = (x < y)"
| "lt (Finite x) Infinity = True"
| "lt Infinity y = False"

text \<open>The sign of a Number that is not \<^verbatim>\<open>NaN\<close>, and the infinity of a sign.\<close>

fun signOf :: "jsnum \<Rightarrow> real" where
  "signOf NaN = 0"
| "signOf NegInfinity = - 1"
| "signOf (Finite x) = sgn x"
| "signOf Infinity = 1"

definition infinityOf :: "real \<Rightarrow> jsnum" where
  "infinityOf s = (if 0 < s then Infinity else NegInfinity)"

fun fneg :: "jsnum \<Rightarrow> jsnum" where
  "fneg NaN = NaN"
| "fneg NegInfinity = Infinity"
| "fneg (Finite x) = Finite (- x)"
| "fneg Infinity = NegInfinity"

text \<open>\<^verbatim>\<open>+\<close>, \<^verbatim>\<open>-\<close>, \<^verbatim>\<open>*\<close> and \<^verbatim>\<open>/\<close> of IEEE 754. A finite number divided by zero
  takes the zero as positive; the divisors in the program are the literals 180, 2 and 1000.\<close>

fun fadd :: "jsnum \<Rightarrow> jsnum \<Rightarrow> jsnum" where
  "fadd NaN y = NaN"
| "fadd x NaN = NaN"
| "fadd (Finite x) (Finite y) = roundDouble (x + y)"
| "fadd Infinity NegInfinity = NaN"
| "fadd NegInfinity Infinity = NaN"
| "fadd Infinity y = Infinity"
| "fadd NegInfinity y = NegInfinity"
| "fadd (Finite x) y = y"

definition fsub :: "jsnum \<Rightarrow> jsnum \<Rightarrow> jsnum" where
  "fsub x y = fadd x (fneg y)"

fun fmul :: "jsnum \<Rightarrow> jsnum \<Rightarrow> jsnum" where
  "fmul NaN y = NaN"
| "fmul x NaN = NaN"
| "fmul (Finite x) (Finite y) = roundDouble (x * y)"
| "fmul x y = (if signOf x * signOf y = 0 then NaN else infinityOf (signOf x * signOf y))"

fun fdiv :: "jsnum \<Rightarrow> jsnum \<Rightarrow> jsnum" where
  "fdiv NaN y = NaN"
| "fdiv x NaN = NaN"
| "fdiv (Finite x) (Finite y) =
     (if y = 0 then (if x = 0 then NaN else infinityOf (sgn x)) else roundDouble (x / y))"
| "fdiv (Finite x) y = Finite 0"
| "fdiv x (Finite y) = infinityOf (signOf x * (if y < 0 then - 1 else 1))"
| "fdiv x y = NaN"

section \<open>The \<^verbatim>\<open>Math\<close> object\<close>

text \<open>\<^verbatim>\<open>Math.PI\<close>, the double nearest to the number pi.\<close>

definition mathPI :: real where
  "mathPI = 884279719003555 / 2 ^ 48"

text \<open>
  ECMAScript leaves \<^verbatim>\<open>Math.sin\<close>, \<^verbatim>\<open>Math.cos\<close> and \<^verbatim>\<open>Math.atan2\<close> to the platform
  (their results are implementation-approximated) outside the cases it fixes. The
  platform is a parameter: the real numbers it aims at, rounded to doubles by the
  functions below, which add the fixed cases.
\<close>

record mathlib =
  approxSin :: "real \<Rightarrow> real"
  approxCos :: "real \<Rightarrow> real"
  approxAtan2 :: "jsnum \<Rightarrow> jsnum \<Rightarrow> real"

fun mathSin :: "mathlib \<Rightarrow> jsnum \<Rightarrow> jsnum" where
  "mathSin M (Finite x) = (if x = 0 then Finite 0 else roundDouble (approxSin M x))"
| "mathSin M x = NaN"

fun mathCos :: "mathlib \<Rightarrow> jsnum \<Rightarrow> jsnum" where
  "mathCos M (Finite x) = (if x = 0 then Finite 1 else roundDouble (approxCos M x))"
| "mathCos M x = NaN"

text \<open>\<^verbatim>\<open>Math.sqrt\<close> is the correctly rounded square root; it is \<^verbatim>\<open>NaN\<close> below zero.\<close>

fun mathSqrt :: "jsnum \<Rightarrow> jsnum" where
  "mathSqrt (Finite x) = (if x < 0 then NaN else roundDouble (sqrt x))"
| "mathSqrt Infinity = Infinity"
| "mathSqrt x = NaN"

text \<open>\<^verbatim>\<open>Math.atan2(y, x)\<close>: \<^verbatim>\<open>NaN\<close> when an argument is; zero for a zero \<open>y\<close> and an
  \<open>x\<close> that is not negative, and for a finite \<open>y\<close> and an infinite positive \<open>x\<close>.\<close>

fun mathAtan2 :: "mathlib \<Rightarrow> jsnum \<Rightarrow> jsnum \<Rightarrow> jsnum" where
  "mathAtan2 M NaN x = NaN"
| "mathAtan2 M y NaN = NaN"
| "mathAtan2 M (Finite y) (Finite x) =
     (if y = 0 \<and> 0 \<le> x then Finite 0 else roundDouble (approxAtan2 M (Finite y) (Finite x)))"
| "mathAtan2 M (Finite y) Infinity = Finite 0"
| "mathAtan2 M y x = roundDouble (approxAtan2 M y x)"

section \<open>Track points\<close>

text \<open>A track point \<^verbatim>\<open>{lat, lon, ele}\<close> whose three fields are numbers.\<close>

record point =
  lat :: real
  lon :: real
  ele :: real

definition toPoint :: "jsval \<Rightarrow> point option" where
  "toPoint v =
     (case (getProp v ''lat'', getProp v ''lon'', getProp v ''ele'') of
        (Inr (JNum a), Inr (JNum b), Inr (JNum e)) \<Rightarrow> Some \<lparr>lat = a, lon = b, ele = e\<rparr>
      | _ \<Rightarrow> None)"

fun toTrack :: "jsval list \<Rightarrow> point list option" where
  "toTrack [] = Some []"
| "toTrack (v # vs) =
     (case toPoint v of None \<Rightarrow> None
      | Some p \<Rightarrow> (case toTrack vs of None \<Rightarrow> None | Some ps \<Rightarrow> Some (p # ps)))"

section \<open>Great-circle distance\<close>

text \<open>\<^verbatim>\<open>x * Math.PI / 180\<close>.\<close>

definition toRadians :: "jsnum \<Rightarrow> jsnum" where
  "toRadians x = fdiv (fmul x (Finite mathPI)) (Finite 180)"

text \<open>Lines 338 to 345: the value of \<^verbatim>\<open>a\<close>.\<close>

definition haversineA :: "mathlib \<Rightarrow> real \<Rightarrow> real \<Rightarrow> real \<Rightarrow> real \<Rightarrow> jsnum" where
  "haversineA M lat1 lon1 lat2 lon2 =
     (let phi1 = toRadians (Finite lat1);
          phi2 = toRadians (Finite lat2);
          dphi = toRadians (fsub (Finite lat2) (Finite lat1));
          dlambda = toRadians (fsub (Finite lon2) (Finite lon1))
      in fadd (fmul (mathSin M (fdiv dphi (Finite 2))) (mathSin M (fdiv dphi (Finite 2))))
              (fmul (fmul (fmul (mathCos M phi1) (mathCos M phi2))
                          (mathSin M (fdiv dlambda (Finite 2))))
                    (mathSin M (fdiv dlambda (Finite 2)))))"

text \<open>Line 346: the value of \<^verbatim>\<open>c\<close> for a given \<^verbatim>\<open>a\<close>. Both square roots take their
  argument as it is.\<close>

definition centralAngle :: "mathlib \<Rightarrow> jsnum \<Rightarrow> jsnum" where
  "centralAngle M a =
     fmul (Finite 2) (mathAtan2 M (mathSqrt a) (mathSqrt (fsub (Finite 1) a)))"

definition haversineDistance :: "mathlib \<Rightarrow> real \<Rightarrow> real \<Rightarrow> real \<Rightarrow> real \<Rightarrow> jsnum" where
  "haversineDistance M lat1 lon1 lat2 lon2 =
     fmul (Finite 6371000) (centralAngle M (haversineA M lat1 lon1 lat2 lon2))"

section \<open>Statistics\<close>

text \<open>The first loop of \<^verbatim>\<open>updateStats\<close> (lines 304 to 310), \<open>i\<close> from 1 below the length.\<close>

definition totalDistance :: "mathlib \<Rightarrow> point list \<Rightarrow> jsnum" where
  "totalDistance M coords =
     foldl (\<lambda>total i.
              fadd total
                (haversineDistance M (lat (coords ! (i - 1))) (lon (coords ! (i - 1)))
                                     (lat (coords ! i)) (lon (coords ! i))))
           (Finite 0) [1..<length coords]"

text \<open>The second loop (lines 313 to 326), \<open>i\<close> from 0 below the length. Elevations, their
  differences and the gain are kept exact.\<close>

record elevations =
  elevationGain :: real
  minElev :: jsnum
  maxElev :: jsnum

definition elevationStep :: "point list \<Rightarrow> elevations \<Rightarrow> nat \<Rightarrow> elevations" where
  "elevationStep coords acc i =
     (let e = ele (coords ! i);
          acc1 = (if lt (Finite e) (minElev acc) then acc\<lparr>minElev := Finite e\<rparr> else acc);
          acc2 = (if lt (maxElev acc1) (Finite e) then acc1\<lparr>maxElev := Finite e\<rparr> else acc1)
      in if 0 < i then
           (let diff = ele (coords ! i) - ele (coords ! (i - 1))
            in if 0 < diff then acc2\<lparr>elevationGain := elevationGain acc2 + diff\<rparr> else acc2)
         else acc2)"

definition elevationScan :: "point list \<Rightarrow> elevations" where
  "elevationScan coords =
     foldl (elevationStep coords)
       \<lparr>elevationGain = 0, minElev = Infinity, maxElev = NegInfinity\<rparr>
       [0..<length coords]"

section \<open>Elevation chart\<close>

text \<open>
  The loop of \<^verbatim>\<open>drawElevationChart\<close> (lines 358 to 366): the pair of \<^verbatim>\<open>distances\<close> and
  \<^verbatim>\<open>cumulative\<close>.
\<close>

definition chartStep ::
  "mathlib \<Rightarrow> point list \<Rightarrow> jsnum list \<times> jsnum \<Rightarrow> nat \<Rightarrow> jsnum list \<times> jsnum" where
  "chartStep M coords acc i =
     (let cumulative =
            fadd (snd acc)
              (haversineDistance M (lat (coords ! (i - 1))) (lon (coords ! (i - 1)))
                                   (lat (coords ! i)) (lon (coords ! i)))
      in (fst acc @ [fdiv cumulative (Finite 1000)], cumulative))"

definition chartLoop :: "mathlib \<Rightarrow> point list \<Rightarrow> jsnum list \<times> jsnum" where
  "chartLoop M coords = foldl (chartStep M coords) ([Finite 0], Finite 0) [1..<length coords]"

definition distances :: "mathlib \<Rightarrow> point list \<Rightarrow> jsnum list" where
  "distances M coords = fst (chartLoop M coords)"

section \<open>Application state\<close>

text \<open>
  Text shown in the page is kept as the pieces the program concatenates, with the number
  under each formatting call: \<open>ToFixed d x\<close> stands for \<^verbatim>\<open>x.toFixed(d)\<close>, \<open>Round x\<close> for
  \<^verbatim>\<open>Math.round(x)\<close> and \<open>ToString x\<close> for the default conversion of \<^verbatim>\<open>x\<close>.
\<close>

datatype piece = Lit string | ToFixed nat jsnum | Round jsnum | ToString real

type_synonym content = "piece list"

record marker =
  markerLat :: real
  markerLon :: real
  popup :: content

record chart =
  labels :: "content list"
  chartData :: "real list"

record position =
  posLat :: real
  posLon :: real
  accuracy :: real

record indicator =
  hidden :: bool
  valueText :: content
  valueColor :: string

text \<open>
  The fields of \<^verbatim>\<open>state\<close> followed by the page elements the modelled functions write.
  A layer is the value it was built from; the map shows the layers the state refers to
  (\<^verbatim>\<open>loadTrackData\<close> removes the old ones before \<^verbatim>\<open>drawTrack\<close> replaces them), and
  \<open>mapFit\<close> is the polyline whose bounds the view was last fitted to.
\<close>

record state =
  mapFit :: "(real \<times> real) list option"
  trackLayer :: "(real \<times> real) list option"
  userMarker :: "(real \<times> real) option"
  startMarker :: "marker option"
  endMarker :: "marker option"
  elevationChart :: "chart option"
  trackData :: "point list"
  watchId :: "nat option"
  userPosition :: "position option"
  isElevationVisible :: bool
  dropZoneHidden :: bool
  loadingVisible :: bool
  trailName :: content
  statDistance :: content
  statElevation :: content
  elevMin :: content
  elevMax :: content
  elevGain :: content
  gpsStatusClass :: string
  gpsStatusText :: content
  distanceIndicator :: indicator

text \<open>What the browser provides: whether \<^verbatim>\<open>navigator.geolocation\<close> exists, the
  identifier the next \<^verbatim>\<open>watchPosition\<close> call returns, and its \<^verbatim>\<open>Math\<close> functions.\<close>

record env =
  geolocation :: bool
  nextWatchId :: nat
  math :: mathlib

definition showLoading :: "bool \<Rightarrow> state \<Rightarrow> state" where
  "showLoading show s = s\<lparr>loadingVisible := show\<rparr>"

section \<open>Drawing and statistics on the state\<close>

text \<open>\<^verbatim>\<open>drawTrack\<close>, called with a non-empty list only.\<close>

definition drawTrack :: "point list \<Rightarrow> state \<Rightarrow> state" where
  "drawTrack coords s =
     (let latLngs = map (\<lambda>c. (lat c, lon c)) coords;
          lastCoord = coords ! (length coords - 1)
      in s\<lparr>trackLayer := Some latLngs,
            startMarker := Some \<lparr>markerLat = lat (coords ! 0), markerLon = lon (coords ! 0),
              popup = [Lit ''<b>Start</b><br>Elevation: '', ToString (ele (coords ! 0)), Lit ''m'']\<rparr>,
            endMarker := Some \<lparr>markerLat = lat lastCoord, markerLon = lon lastCoord,
              popup = [Lit ''<b>End</b><br>Elevation: '', ToString (ele lastCoord), Lit ''m'']\<rparr>,
            mapFit := Some latLngs\<rparr>)"

text \<open>The arrow of line 330, in UTF-8.\<close>

definition upArrow :: string where
  "upArrow = [CHR 0xE2, CHR 0x86, CHR 0x91]"

definition updateStats :: "mathlib \<Rightarrow> point list \<Rightarrow> state \<Rightarrow> state" where
  "updateStats M coords s =
     (let total = totalDistance M coords;
          el = elevationScan coords
      in s\<lparr>statDistance := [ToFixed 2 (fdiv total (Finite 1000)), Lit '' km''],
            statElevation := [Lit (upArrow @ '' ''), Round (Finite (elevationGain el)), Lit '' m''],
            elevMin := [Round (minElev el), Lit '' m''],
            elevMax := [Round (maxElev el), Lit '' m''],
            elevGain := [Round (Finite (elevationGain el)), Lit '' m'']\<rparr>)"

definition drawElevationChart :: "mathlib \<Rightarrow> point list \<Rightarrow> state \<Rightarrow> state" where
  "drawElevationChart M coords s =
     s\<lparr>elevationChart :=
         Some \<lparr>labels = map (\<lambda>d. [ToFixed 1 d]) (distances M coords),
               chartData = map ele coords\<rparr>\<rparr>"

section \<open>GPS tracking\<close>

definition updateGPSStatus :: "string \<Rightarrow> content \<Rightarrow> state \<Rightarrow> state" where
  "updateGPSStatus status txt s =
     s\<lparr>gpsStatusClass := ''gps-status '' @ status, gpsStatusText := txt\<rparr>"

definition startGPSTracking :: "env \<Rightarrow> state \<Rightarrow> state" where
  "startGPSTracking e s =
     (if \<not> geolocation e then updateGPSStatus ''error'' [Lit ''GPS not supported''] s
      else updateGPSStatus ''searching'' [Lit ''Searching...'']
             (s\<lparr>watchId := Some (nextWatchId e)\<rparr>))"

text \<open>\<^verbatim>\<open>getDistanceToTrail\<close>: the loop over \<^verbatim>\<open>state.trackData\<close>, from \<^verbatim>\<open>Infinity\<close>.\<close>

definition nearer :: "mathlib \<Rightarrow> real \<Rightarrow> real \<Rightarrow> jsnum \<Rightarrow> point \<Rightarrow> jsnum" where
  "nearer M la lo minDist coord =
     (let dist = haversineDistance M la lo (lat coord) (lon coord)
      in if lt dist minDist then dist else minDist)"

definition getDistanceToTrail :: "mathlib \<Rightarrow> real \<Rightarrow> real \<Rightarrow> state \<Rightarrow> jsnum" where
  "getDistanceToTrail M la lo s = foldl (nearer M la lo) Infinity (trackData s)"

definition updateDistanceIndicator :: "jsnum \<Rightarrow> state \<Rightarrow> state" where
  "updateDistanceIndicator distance s =
     s\<lparr>distanceIndicator :=
         \<lparr>hidden = False,
          valueText = (if lt distance (Finite 1000) then [Round distance, Lit ''m'']
                       else [ToFixed 1 (fdiv distance (Finite 1000)), Lit ''km'']),
          valueColor = (if lt distance (Finite 50) then ''#10b981''
                        else if lt distance (Finite 200) then ''#00d9ff''
                        else ''#f59e0b'')\<rparr>\<rparr>"

text \<open>The plus-minus sign of line 471, in UTF-8.\<close>

definition plusMinus :: string where
  "plusMinus = [CHR 0xC2, CHR 0xB1]"

text \<open>
  \<^verbatim>\<open>onPositionUpdate\<close>. Both branches on \<^verbatim>\<open>state.userMarker\<close> leave a marker at the
  new position.
\<close>

definition onPositionUpdate :: "mathlib \<Rightarrow> position \<Rightarrow> state \<Rightarrow> state" where
  "onPositionUpdate M p s =
     (let s1 = s\<lparr>userPosition := Some p\<rparr>;
          s2 = updateGPSStatus ''active''
                 [Lit (plusMinus @ '' ''), Round (Finite (accuracy p)), Lit ''m''] s1;
          s3 = s2\<lparr>userMarker := Some (posLat p, posLon p)\<rparr>
      in if 0 < length (trackData s3)
         then updateDistanceIndicator (getDistanceToTrail M (posLat p) (posLon p) s3) s3
         else s3)"

section \<open>Loading a track\<close>

text \<open>\<^verbatim>\<open>String.prototype.replace\<close> with a string pattern replaces the first occurrence.\<close>

fun replaceFirst :: "string \<Rightarrow> string \<Rightarrow> string \<Rightarrow> string" where
  "replaceFirst pat rep [] = (if pat = [] then rep else [])"
| "replaceFirst pat rep (c # cs) =
     (if take (length pat) (c # cs) = pat then rep @ drop (length pat) (c # cs)
      else c # replaceFirst pat rep cs)"

definition trailNameOf :: "string \<Rightarrow> string" where
  "trailNameOf filename =
     map (\<lambda>c. if c = CHR ''_'' then CHR '' '' else c) (replaceFirst ''.json'' [] filename)"

text \<open>
  How a call of \<^verbatim>\<open>loadTrackData\<close> ends: it returns after installing the track; it
  shows the alert of line 213 and returns (the failure the specification names
  NoTrackDataFound); or it throws. \<open>OutsideDataModel\<close> marks the documents whose resolved
  list is not empty and holds an element that is not a point with three numeric fields:
  what the program computes from such elements is not part of this development.
\<close>

datatype outcome =
    Loaded state
  | NoTrackDataFound state
  | Threw error state
  | OutsideDataModel

text \<open>Lines 218 to 243: the track is stored, drawn and measured, and tracking starts.\<close>

definition installTrack :: "point list \<Rightarrow> string \<Rightarrow> env \<Rightarrow> state \<Rightarrow> state" where
  "installTrack coords filename e s =
     (let s1 = s\<lparr>trackData := coords\<rparr>;
          s2 = s1\<lparr>trailName := [Lit (trailNameOf filename)]\<rparr>;
          s3 = drawTrack coords s2;
          s4 = updateStats (math e) coords s3;
          s5 = drawElevationChart (math e) coords s4;
          s6 = s5\<lparr>dropZoneHidden := True\<rparr>;
          s7 = showLoading False s6
      in startGPSTracking e s7)"

definition loadTrackData :: "jsval \<Rightarrow> string \<Rightarrow> env \<Rightarrow> state \<Rightarrow> outcome" where
  "loadTrackData json filename e s =
     (case resolveCoords json of
        Inl err \<Rightarrow> Threw err s
      | Inr coords \<Rightarrow>
          if length coords = 0 then NoTrackDataFound (showLoading False s)
          else (case toTrack coords of
                  None \<Rightarrow> OutsideDataModel
                | Some pts \<Rightarrow> Loaded (installTrack pts filename e s)))"

text \<open>
  The \<^verbatim>\<open>onload\<close> handler of \<^verbatim>\<open>processFile\<close> (lines 177 to 185), given what
  \<^verbatim>\<open>JSON.parse\<close> made of the file (\<open>None\<close> when it threw): one \<^verbatim>\<open>catch\<close> serves the
  parser and \<^verbatim>\<open>loadTrackData\<close>, and answers with the alert that starts
  \<^verbatim>\<open>Error parsing JSON file\<close>.
\<close>

datatype alert = CouldNotFindTrackData | ErrorParsingJSON

datatype handled = Silent state | Shown alert state | Unmodelled

definition readerOnload :: "jsval option \<Rightarrow> string \<Rightarrow> env \<Rightarrow> state \<Rightarrow> handled" where
  "readerOnload parsed filename e s =
     (case parsed of
        None \<Rightarrow> Shown ErrorParsingJSON (showLoading False s)
      | Some json \<Rightarrow>
          (case loadTrackData json filename e s of
             Loaded s' \<Rightarrow> Silent s'
           | NoTrackDataFound s' \<Rightarrow> Shown CouldNotFindTrackData s'
           | Threw err s' \<Rightarrow> Shown ErrorParsingJSON (showLoading False s')
           | OutsideDataModel \<Rightarrow> Unmodelled))"

text \<open>
  The state when the script starts (lines 9 to 20). The page markup is not among the
  sources: its elements start without text here, the distance indicator hidden and the
  drop zone shown.
\<close>

definition initialState :: state where
  "initialState =
     \<lparr>mapFit = None, trackLayer = None, userMarker = None, startMarker = None,
      endMarker = None, elevationChart = None, trackData = [], watchId = None,
      userPosition = None, isElevationVisible = True,
      dropZoneHidden = False, loadingVisible = False, trailName = [],
      statDistance = [], statElevation = [], elevMin = [], elevMax = [], elevGain = [],
      gpsStatusClass = [], gpsStatusText = [],
      distanceIndicator = \<lparr>hidden = True, valueText = [], valueColor = []\<rparr>\<rparr>"

section \<open>Auxiliary notions and a sample session\<close>

text \<open>What index \<open>i\<close> adds to the elevation gain (lines 323 and 324).\<close>

definition ascent :: "point list \<Rightarrow> nat \<Rightarrow> real" where
  "ascent coords i =
     (if 0 < ele (coords ! i) - ele (coords ! (i - 1))
      then ele (coords ! i) - ele (coords ! (i - 1)) else 0)"

text \<open>The arc tangent of \<open>y / x\<close> in the quadrant of the point \<open>(x, y)\<close>, over the reals
  and the infinities.\<close>

definition atan2 :: "real \<Rightarrow> real \<Rightarrow> real" where
  "atan2 y x =
     (if 0 < x then arctan (y / x)
      else if x < 0 then (if 0 \<le> y then arctan (y / x) + pi else arctan (y / x) - pi)
      else if 0 < y then pi / 2
      else if y < 0 then - (pi / 2)
      else 0)"

fun idealAtan2 :: "jsnum \<Rightarrow> jsnum \<Rightarrow> real" where
  "idealAtan2 (Finite y) (Finite x) = atan2 y x"
| "idealAtan2 (Finite y) NegInfinity = (if 0 \<le> y then pi else - pi)"
| "idealAtan2 Infinity (Finite x) = pi / 2"
| "idealAtan2 NegInfinity (Finite x) = - (pi / 2)"
| "idealAtan2 Infinity Infinity = pi / 4"
| "idealAtan2 Infinity NegInfinity = 3 * pi / 4"
| "idealAtan2 NegInfinity Infinity = - (pi / 4)"
| "idealAtan2 NegInfinity NegInfinity = - (3 * pi / 4)"
| "idealAtan2 y x = 0"

text \<open>
  A sample platform for the examples below: the real sine, cosine and arc tangent, and
  at the arguments the examples reach the doubles that common implementations of
  \<^verbatim>\<open>Math.sin\<close>, \<^verbatim>\<open>Math.cos\<close> and \<^verbatim>\<open>Math.atan2\<close> return there (the sine of an
  argument of magnitude below \<open>2 ^ -26\<close> is the argument).
\<close>

definition sampleSin :: "real \<Rightarrow> real" where
  "sampleSin x =
     (if \<bar>x\<bar> < 1 / 2 ^ 26 then x
      else if \<bar>x\<bar> = mathPI / 2 then sgn x
      else if \<bar>x\<bar> = 7545853602163669 / 2 ^ 55 then sgn x * (7490808106342645 / 2 ^ 55)
      else if \<bar>x\<bar> = 2908297742500581 / 2 ^ 53 then sgn x * (5716052529395585 / 2 ^ 54)
      else sin x)"

definition sampleCos :: "real \<Rightarrow> real" where
  "sampleCos x =
     (if \<bar>x\<bar> = 7545853602163669 / 2 ^ 55 then 68831018284033 / 2 ^ 46 else cos x)"

definition sampleAtan2 :: "jsnum \<Rightarrow> jsnum \<Rightarrow> real" where
  "sampleAtan2 y x =
     (if y = Finite 1 \<and> x = Finite 0 then mathPI / 2
      else if y = Finite (5716052529395585 / 2 ^ 54) \<and> x = Finite (2135435030106633 / 2 ^ 51)
        then 2908297742500581 / 2 ^ 53
      else idealAtan2 y x)"

definition sampleMath :: mathlib where
  "sampleMath = \<lparr>approxSin = sampleSin, approxCos = sampleCos, approxAtan2 = sampleAtan2\<rparr>"

text \<open>
  Two one-point tracks half the equator apart, as documents and as points, a track of
  two points 37 degrees apart on the equator, a position fix on the first track, and a
  browser with geolocation and the sample platform.
\<close>

definition pointA :: jsval where
  "pointA = JObj [(''lat'', JNum 0), (''lon'', JNum 0), (''ele'', JNum 0)]"

definition pointB :: jsval where
  "pointB = JObj [(''lat'', JNum 0), (''lon'', JNum 180), (''ele'', JNum 0)]"

definition trackA :: "point list" where
  "trackA = [\<lparr>lat = 0, lon = 0, ele = 0\<rparr>]"

definition trackB :: "point list" where
  "trackB = [\<lparr>lat = 0, lon = 180, ele = 0\<rparr>]"

definition track37 :: "point list" where
  "track37 = [\<lparr>lat = 0, lon = 0, ele = 0\<rparr>, \<lparr>lat = 0, lon = 37, ele = 0\<rparr>]"

definition fix0 :: position where
  "fix0 = \<lparr>posLat = 0, posLon = 0, accuracy = 5\<rparr>"

definition env0 :: env where
  "env0 = \<lparr>geolocation = True, nextWatchId = 1, math = sampleMath\<rparr>"

text \<open>The state once the first track is loaded from the initial state and a fix has arrived.\<close>

definition stateWithFix :: state where
  "stateWithFix =
     onPositionUpdate sampleMath fix0 (installTrack trackA ''a.json'' env0 initialState)"

text \<open>A document of the nested shape that also has a \<^verbatim>\<open>coordinates\<close> key, and one that
  has only the latter.\<close>

definition docBoth :: jsval where
  "docBoth =
     JObj [(''data'', JObj [(''trackData'', JArr [JArr [pointA]])]),
           (''coordinates'', JArr [JArr [JNum 180, JNum 0]])]"

definition docCoordinates :: jsval where
  "docCoordinates = JObj [(''coordinates'', JArr [JArr [JNum 180, JNum 0]])]"

section \<open>Rounding to doubles\<close>

lemma rhe_eval:
  assumes "of_int n - 1 / 2 < y" "y < of_int n + 1 / 2"
  shows "rhe y = n"
proof (cases "of_int n \<le> y")
  case True
  with assms have "\<lfloor>y\<rfloor> = n" by (intro floor_unique) auto
  with assms show ?thesis by (simp add: rhe_def Let_def)
next
  case False
  with assms have "\<lfloor>y\<rfloor> = n - 1" by (intro floor_unique) auto
  with assms False show ?thesis by (simp add: rhe_def Let_def)
qed

lemma rhe_le_int:
  assumes "y \<le> of_int m"
  shows "rhe y \<le> m"
proof (cases "y = of_int m")
  case True
  then show ?thesis by (simp add: rhe_def)
next
  case False
  with assms have "y < of_int m" by simp
  then have "\<lfloor>y\<rfloor> < m" by (simp add: floor_less_iff)
  then have "\<lfloor>y\<rfloor> + 1 \<le> m" by simp
  then show ?thesis by (auto simp: rhe_def Let_def)
qed

lemma rhe_ge_int:
  assumes "of_int m \<le> y"
  shows "m \<le> rhe y"
proof -
  from assms have "m \<le> \<lfloor>y\<rfloor>" by (simp add: le_floor_iff)
  then show ?thesis by (auto simp: rhe_def Let_def)
qed

lemma rhe_minus: "rhe (- y) = - rhe y"
proof (cases "y = of_int \<lfloor>y\<rfloor>")
  case True
  then have m: "- y = of_int (- \<lfloor>y\<rfloor>)" by simp
  have "rhe (of_int (- \<lfloor>y\<rfloor>)) = - \<lfloor>y\<rfloor>" by (rule rhe_eval) simp_all
  then have "rhe (- y) = - \<lfloor>y\<rfloor>" by (simp only: m)
  moreover have "rhe y = \<lfloor>y\<rfloor>" using True by (simp add: rhe_def)
  ultimately show ?thesis by simp
next
  case False
  define n where "n = \<lfloor>y\<rfloor>"
  define f where "f = y - of_int n"
  have f: "0 < f" "f < 1" using False unfolding f_def n_def by linarith+
  have fl: "\<lfloor>- y\<rfloor> = - n - 1"
  proof (rule floor_unique)
    show "of_int (- n - 1) \<le> - y" using f unfolding f_def by simp
    show "- y < of_int (- n - 1) + 1" using f unfolding f_def by simp
  qed
  have fr: "- y - of_int (- n - 1) = 1 - f" unfolding f_def by simp
  have ry: "rhe y = (if f < 1 / 2 then n else if 1 / 2 < f then n + 1 else if even n then n else n + 1)"
    by (simp add: rhe_def Let_def n_def f_def)
  have rm: "rhe (- y) = (if 1 - f < 1 / 2 then - n - 1 else if 1 / 2 < 1 - f then - n else if even (- n - 1) then - n - 1 else - n)"
    unfolding rhe_def Let_def fl fr by simp
  show ?thesis
  proof (cases "f < 1 / 2")
    case True
    then show ?thesis unfolding ry rm by simp
  next
    case nl: False
    show ?thesis
    proof (cases "1 / 2 < f")
      case True
      then show ?thesis unfolding ry rm by simp
    next
      case False
      with nl have "f = 1 / 2" by simp
      then show ?thesis unfolding ry rm by simp
    qed
  qed
qed

lemma powr_powi: "(2::real) powr of_int k = 2 powi k"
  by (simp add: powr_int power_int_def power_one_over inverse_eq_divide)

lemma roundDouble_zero [simp]: "roundDouble 0 = Finite 0"
  by (simp add: roundDouble_def)

lemma roundDouble_not_NaN [simp]: "roundDouble x \<noteq> NaN"
  by (simp add: roundDouble_def Let_def)

text \<open>The exponent and the integer significand that \<open>roundDouble\<close> works with.\<close>

lemma roundDouble_parts:
  assumes "x \<noteq> 0"
  obtains e n where "- 1022 \<le> e" "\<bar>x\<bar> < 2 powi (e + 1)" "- 1022 < e \<Longrightarrow> 2 powi e \<le> \<bar>x\<bar>"
    "n = rhe (x / 2 powi (e - 52))"
    "roundDouble x =
       (if overflowBound \<le> of_int n * 2 powi (e - 52) then Infinity
        else if of_int n * 2 powi (e - 52) \<le> - overflowBound then NegInfinity
        else Finite (of_int n * 2 powi (e - 52)))"
proof -
  define l where "l = \<lfloor>log 2 \<bar>x\<bar>\<rfloor>"
  define e where "e = max l (- 1022)"
  have pos: "0 < \<bar>x\<bar>" using assms by simp
  have "2 powr of_int l \<le> \<bar>x\<bar> \<and> \<bar>x\<bar> < 2 powr of_int (l + 1)"
    using floor_log_eq_powr_iff [of "\<bar>x\<bar>" 2 l] pos by (simp add: l_def)
  then have l: "2 powi l \<le> \<bar>x\<bar>" "\<bar>x\<bar> < 2 powi (l + 1)" by (simp_all only: powr_powi)
  have "(2::real) powi (l + 1) \<le> 2 powi (e + 1)"
    by (rule power_int_increasing) (simp_all add: e_def)
  with l have 2: "\<bar>x\<bar> < 2 powi (e + 1)" by simp
  have 3: "- 1022 < e \<Longrightarrow> 2 powi e \<le> \<bar>x\<bar>"
  proof -
    assume "- 1022 < e"
    then have "e = l" by (simp add: e_def max_def split: if_splits)
    with l show ?thesis by simp
  qed
  show ?thesis
  proof (rule that [of e "rhe (x / 2 powi (e - 52))"])
    show "- 1022 \<le> e" by (simp add: e_def)
    show "\<bar>x\<bar> < 2 powi (e + 1)" by (rule 2)
    show "- 1022 < e \<Longrightarrow> 2 powi e \<le> \<bar>x\<bar>" by (rule 3)
    show "rhe (x / 2 powi (e - 52)) = rhe (x / 2 powi (e - 52))" ..
    show "roundDouble x =
       (if overflowBound \<le> of_int (rhe (x / 2 powi (e - 52))) * 2 powi (e - 52) then Infinity
        else if of_int (rhe (x / 2 powi (e - 52))) * 2 powi (e - 52) \<le> - overflowBound then NegInfinity
        else Finite (of_int (rhe (x / 2 powi (e - 52))) * 2 powi (e - 52)))"
      using assms unfolding roundDouble_def Let_def e_def l_def by (simp only: if_False)
  qed
qed

lemma overflowBound_pos: "0 < overflowBound"
  by (simp add: overflowBound_def)

lemma roundDouble_minus: "roundDouble (- x) = fneg (roundDouble x)"
proof (cases "x = 0")
  case True
  then show ?thesis by simp
next
  case False
  define e where "e = max \<lfloor>log 2 \<bar>x\<bar>\<rfloor> (- 1022)"
  define y where "y = of_int (rhe (x / 2 powi (e - 52))) * (2::real) powi (e - 52)"
  have m: "of_int (rhe (- x / 2 powi (e - 52))) * (2::real) powi (e - 52) = - y"
    by (simp add: y_def rhe_minus)
  have a: "roundDouble x =
      (if overflowBound \<le> y then Infinity else if y \<le> - overflowBound then NegInfinity else Finite y)"
    using False unfolding roundDouble_def Let_def e_def y_def by (simp only: if_False)
  have "\<bar>- x\<bar> = \<bar>x\<bar>" by simp
  then have b: "roundDouble (- x) =
      (if overflowBound \<le> - y then Infinity else if - y \<le> - overflowBound then NegInfinity
       else Finite (- y))"
    using False unfolding roundDouble_def Let_def
    by (simp only: e_def [symmetric] m neg_equal_0_iff_equal if_False)
  show ?thesis unfolding a b using overflowBound_pos by auto
qed

text \<open>Evaluation at a given argument: the exponent \<open>e\<close> and the significand \<open>n\<close> are given.\<close>

lemma roundDouble_eq:
  assumes "2 powi e \<le> \<bar>x\<bar>" "\<bar>x\<bar> < 2 powi (e + 1)" "- 1022 \<le> e"
    and "of_int n - 1 / 2 < x / 2 powi (e - 52)" "x / 2 powi (e - 52) < of_int n + 1 / 2"
    and "\<bar>of_int n * 2 powi (e - 52)\<bar> < overflowBound"
    and "v = of_int n * 2 powi (e - 52)"
  shows "roundDouble x = Finite v"
proof -
  have x: "x \<noteq> 0" using assms(1) by (smt (verit) zero_less_power_int)
  have "\<lfloor>log 2 \<bar>x\<bar>\<rfloor> = e"
    using floor_log_eq_powr_iff [of "\<bar>x\<bar>" 2 e] assms(1,2) x
    by (simp add: powr_powi [of "e + 1", simplified] powr_powi)
  then have e: "max \<lfloor>log 2 \<bar>x\<bar>\<rfloor> (- 1022) = e" using assms(3) by simp
  have r: "rhe (x / 2 powi (e - 52)) = n" using assms(4,5) by (rule rhe_eval)
  let ?y = "of_int n * (2::real) powi (e - 52)"
  from assms(6) have "\<not> overflowBound \<le> ?y" "\<not> ?y \<le> - overflowBound" by linarith+
  then show ?thesis
    unfolding roundDouble_def Let_def e r assms(7) using x by (simp only: if_False)
qed

lemma roundDouble_tiny:
  assumes "\<bar>x\<bar> < 2 powi (- 1075)"
  shows "roundDouble x = Finite 0"
proof (cases "x = 0")
  case True
  then show ?thesis by simp
next
  case False
  obtain e n where p: "- 1022 \<le> e" "\<bar>x\<bar> < 2 powi (e + 1)" "- 1022 < e \<Longrightarrow> 2 powi e \<le> \<bar>x\<bar>"
    "n = rhe (x / 2 powi (e - 52))"
    "roundDouble x =
       (if overflowBound \<le> of_int n * 2 powi (e - 52) then Infinity
        else if of_int n * 2 powi (e - 52) \<le> - overflowBound then NegInfinity
        else Finite (of_int n * 2 powi (e - 52)))"
    using roundDouble_parts [OF False] by metis
  have "(2::real) powi (- 1075) \<le> 2 powi e" using p(1) by (intro power_int_increasing) simp_all
  with assms p(3) have e: "e = - 1022" using p(1) by (cases "- 1022 < e") auto
  define u :: real where "u = 2 powi (e - 52)"
  have u: "0 < u" by (simp add: u_def)
  have "(2::real) powi (- 1075) = u / 2"
    unfolding u_def e by (simp add: power_int_diff)
  with assms have "\<bar>x\<bar> < u / 2" by simp
  then have "\<bar>x / u\<bar> < 1 / 2" using u by (simp add: abs_divide field_simps)
  then have "- (1 / 2) < x / u" "x / u < 1 / 2" by (simp_all only: abs_less_iff minus_divide_left) linarith+
  then have "rhe (x / u) = 0" by (intro rhe_eval) simp_all
  then have "n = 0" using p(4) by (simp add: u_def)
  then show ?thesis using p(5) overflowBound_pos by simp
qed

lemma powi_nat: "0 \<le> j \<Longrightarrow> (2::real) powi j = of_int (2 ^ nat j)"
  by (simp add: power_int_def)

lemma powi_le_D:
  assumes "(2::real) powi e \<le> 2 powi k"
  shows "e \<le> k"
proof (rule ccontr)
  assume "\<not> e \<le> k"
  then have "(2::real) powi k < 2 powi e" by (intro power_int_strict_increasing) simp_all
  with assms show False by simp
qed

lemma roundDouble_le_pow2:
  assumes "\<bar>x\<bar> \<le> 2 powi k" "- 1074 \<le> k" "k \<le> 1023"
  obtains v where "roundDouble x = Finite v" "\<bar>v\<bar> \<le> 2 powi k"
proof (cases "x = 0")
  case True
  show ?thesis by (rule that [of 0]) (simp_all add: True)
next
  case False
  obtain e n where p: "- 1022 \<le> e" "\<bar>x\<bar> < 2 powi (e + 1)" "- 1022 < e \<Longrightarrow> 2 powi e \<le> \<bar>x\<bar>"
    "n = rhe (x / 2 powi (e - 52))"
    "roundDouble x =
       (if overflowBound \<le> of_int n * 2 powi (e - 52) then Infinity
        else if of_int n * 2 powi (e - 52) \<le> - overflowBound then NegInfinity
        else Finite (of_int n * 2 powi (e - 52)))"
    using roundDouble_parts [OF False] by metis
  define u :: real where "u = 2 powi (e - 52)"
  have u: "0 < u" by (simp add: u_def)
  have ek: "e - 52 \<le> k"
  proof (cases "- 1022 < e")
    case True
    with p(3) assms(1) have "(2::real) powi e \<le> 2 powi k" by simp
    then have "e \<le> k" by (rule powi_le_D)
    then show ?thesis by simp
  next
    case False
    with p(1) assms(2) show ?thesis by simp
  qed
  define m :: int where "m = 2 ^ nat (k - (e - 52))"
  have "(2::real) powi k = 2 powi (k - (e - 52)) * 2 powi (e - 52)"
    by (subst power_int_add [symmetric]) simp_all
  also have "(2::real) powi (k - (e - 52)) = of_int m"
    unfolding m_def using ek by (intro powi_nat) simp
  finally have km: "(2::real) powi k = of_int m * u" by (simp add: u_def)
  from assms(1) have "\<bar>x\<bar> / u \<le> of_int m" using u by (simp add: km field_simps)
  then have a: "\<bar>x / u\<bar> \<le> of_int m" using u by (simp add: abs_divide)
  have "x / u \<le> of_int m" using a by (rule abs_le_D1)
  moreover have "- (x / u) \<le> of_int m" using a by (rule abs_le_D2)
  then have "of_int (- m) \<le> x / u" by simp
  ultimately have "x / u \<le> of_int m" "of_int (- m) \<le> x / u" by blast+
  then have "n \<le> m" "- m \<le> n" unfolding p(4) u_def [symmetric]
    by (simp_all only: rhe_le_int rhe_ge_int)
  then have "\<bar>real_of_int n\<bar> \<le> of_int m" by (simp add: abs_le_iff)
  then have "\<bar>of_int n * u\<bar> \<le> of_int m * u" using u by (simp add: abs_mult)
  then have b: "\<bar>of_int n * u\<bar> \<le> 2 powi k" by (simp only: km)
  have "(2::real) powi k \<le> 2 powi 1023" using assms(3) by (intro power_int_increasing) simp_all
  also have "\<dots> < overflowBound" by (simp add: overflowBound_def)
  finally have "\<bar>of_int n * u\<bar> < overflowBound" using b by simp
  then have "\<not> overflowBound \<le> of_int n * u" "\<not> of_int n * u \<le> - overflowBound" by linarith+
  then have "roundDouble x = Finite (of_int n * u)" unfolding p(5) u_def by (simp only: if_False)
  then show ?thesis using b by (rule that)
qed

lemma roundDouble_nonneg:
  assumes "0 \<le> x"
  shows "roundDouble x = Infinity \<or> (\<exists>v. 0 \<le> v \<and> roundDouble x = Finite v)"
proof (cases "x = 0")
  case True
  then show ?thesis by simp
next
  case False
  obtain e n where p: "n = rhe (x / 2 powi (e - 52))"
    "roundDouble x =
       (if overflowBound \<le> of_int n * 2 powi (e - 52) then Infinity
        else if of_int n * 2 powi (e - 52) \<le> - overflowBound then NegInfinity
        else Finite (of_int n * 2 powi (e - 52)))"
    using roundDouble_parts [OF False] by metis
  have "of_int 0 \<le> x / 2 powi (e - 52)" using assms by simp
  then have "0 \<le> n" unfolding p(1) by (rule rhe_ge_int)
  then have "0 \<le> of_int n * (2::real) powi (e - 52)" by simp
  then show ?thesis unfolding p(2) using overflowBound_pos by auto
qed

lemma roundDouble_neg:
  assumes "x \<le> - (2 powi (- 1074))"
  shows "roundDouble x = NegInfinity \<or> (\<exists>v. v < 0 \<and> roundDouble x = Finite v)"
proof -
  have neg: "x < 0" using assms by (smt (verit) zero_less_power_int)
  then have x0: "x \<noteq> 0" by simp
  obtain e n where p: "- 1022 \<le> e" "\<bar>x\<bar> < 2 powi (e + 1)" "- 1022 < e \<Longrightarrow> 2 powi e \<le> \<bar>x\<bar>"
    "n = rhe (x / 2 powi (e - 52))"
    "roundDouble x =
       (if overflowBound \<le> of_int n * 2 powi (e - 52) then Infinity
        else if of_int n * 2 powi (e - 52) \<le> - overflowBound then NegInfinity
        else Finite (of_int n * 2 powi (e - 52)))"
    using roundDouble_parts [OF x0] by metis
  define u :: real where "u = 2 powi (e - 52)"
  have u: "0 < u" by (simp add: u_def)
  have "u \<le> \<bar>x\<bar>"
  proof (cases "- 1022 < e")
    case True
    have "u \<le> 2 powi e" unfolding u_def by (intro power_int_increasing) simp_all
    with p(3) [OF True] show ?thesis by simp
  next
    case False
    with p(1) have "e = - 1022" by simp
    then have "u = 2 powi (- 1074)" by (simp add: u_def)
    with assms neg show ?thesis by simp
  qed
  with neg have "x \<le> - u" by simp
  then have "x / u \<le> of_int (- 1)" using u by (simp add: field_simps)
  then have "n \<le> - 1" unfolding p(4) u_def [symmetric] by (rule rhe_le_int)
  then have "real_of_int n \<le> - 1" by linarith
  then have "of_int n * u < 0" using u by (simp add: mult_less_0_iff) 
  then show ?thesis unfolding p(5) u_def using overflowBound_pos by auto
qed

lemma roundDouble_above_one:
  assumes "roundDouble x = Finite v" "1 < v"
  shows "1 + 2 powi (- 52) \<le> v"
proof -
  have x0: "x \<noteq> 0" using assms by auto
  obtain e n where p: "- 1022 \<le> e" "\<bar>x\<bar> < 2 powi (e + 1)" "- 1022 < e \<Longrightarrow> 2 powi e \<le> \<bar>x\<bar>"
    "n = rhe (x / 2 powi (e - 52))"
    "roundDouble x =
       (if overflowBound \<le> of_int n * 2 powi (e - 52) then Infinity
        else if of_int n * 2 powi (e - 52) \<le> - overflowBound then NegInfinity
        else Finite (of_int n * 2 powi (e - 52)))"
    using roundDouble_parts [OF x0] by metis
  define u :: real where "u = 2 powi (e - 52)"
  have u: "0 < u" by (simp add: u_def)
  have v: "v = of_int n * u"
    using assms(1) unfolding p(5) u_def by (auto split: if_splits)
  have e0: "0 \<le> e"
  proof (rule ccontr)
    assume "\<not> 0 \<le> e"
    then have "(2::real) powi (e + 1) \<le> 2 powi 0" by (intro power_int_increasing) simp_all
    with p(2) have "\<bar>x\<bar> \<le> 2 powi 0" by simp
    then obtain w where "roundDouble x = Finite w" "\<bar>w\<bar> \<le> 2 powi 0"
      by (rule roundDouble_le_pow2) simp_all
    with assms show False by simp
  qed
  show ?thesis
  proof (cases "52 \<le> e")
    case True
    then have "u = of_int (2 ^ nat (e - 52))" unfolding u_def by (intro powi_nat) simp
    then have vi: "v = of_int (n * 2 ^ nat (e - 52))" by (simp add: v)
    with assms(2) have "1 < n * 2 ^ nat (e - 52)" by (metis of_int_1_less_iff)
    then have "2 \<le> n * 2 ^ nat (e - 52)" by simp
    then have "real_of_int 2 \<le> of_int (n * 2 ^ nat (e - 52))" by (simp only: of_int_le_iff)
    then have "2 \<le> v" unfolding vi by simp
    moreover have "(2::real) powi (- 52) \<le> 1" by simp
    ultimately show ?thesis by simp
  next
    case False
    define m :: int where "m = 2 ^ nat (52 - e)"
    have "(2::real) powi (52 - e) = of_int m" unfolding m_def using False by (intro powi_nat) simp
    moreover have "(2::real) powi (52 - e) * u = 1"
      unfolding u_def by (subst power_int_add [symmetric]) simp_all
    ultimately have one: "of_int m * u = 1" by simp
    from assms(2) have "of_int m * u < of_int n * u" by (simp only: one v)
    then have "m < n" using u by simp
    then have "m + 1 \<le> n" by simp
    then have "real_of_int (m + 1) \<le> of_int n" by (simp only: of_int_le_iff)
    then have "of_int (m + 1) * u \<le> of_int n * u" using u by (simp only: mult_le_cancel_right_pos)
    then have "1 + u \<le> v" using one by (simp add: v algebra_simps)
    moreover have "(2::real) powi (- 52) \<le> u"
      unfolding u_def using e0 by (intro power_int_increasing) simp_all
    ultimately show ?thesis by simp
  qed
qed

lemma roundDouble_sqrt:
  assumes "(of_int n - 1 / 2) * 2 powi (e - 52) * ((of_int n - 1 / 2) * 2 powi (e - 52)) < (x::real)"
    and "x < (of_int n + 1 / 2) * 2 powi (e - 52) * ((of_int n + 1 / 2) * 2 powi (e - 52))"
    and "(2::real) powi e \<le> (of_int n - 1 / 2) * 2 powi (e - 52)"
    and "(of_int n + 1 / 2) * 2 powi (e - 52) \<le> (2::real) powi (e + 1)"
    and "- 1022 \<le> e"
    and "\<bar>of_int n * 2 powi (e - 52)\<bar> < overflowBound"
    and "v = of_int n * 2 powi (e - 52)"
  shows "roundDouble (sqrt x) = Finite v"
proof -
  define u :: real where "u = 2 powi (e - 52)"
  define lo where "lo = (of_int n - 1 / 2) * u"
  define hi where "hi = (of_int n + 1 / 2) * u"
  have u: "0 < u" by (simp add: u_def)
  have lo: "0 < lo" using assms(3) unfolding lo_def u_def by (smt (verit) zero_less_power_int)
  have hi: "0 < hi" using lo u unfolding lo_def hi_def by (simp add: zero_less_mult_iff)
  have "lo\<^sup>2 < x" using assms(1) by (simp add: lo_def u_def power2_eq_square)
  then have l: "lo < sqrt x" by (rule real_less_rsqrt)
  have "x < hi\<^sup>2" using assms(2) by (simp add: hi_def u_def power2_eq_square)
  then have h: "sqrt x < hi" using hi by (intro real_less_lsqrt) simp_all
  have s: "\<bar>sqrt x\<bar> = sqrt x" using l lo by simp
  show ?thesis
  proof (rule roundDouble_eq [where e = e and n = n])
    show "2 powi e \<le> \<bar>sqrt x\<bar>" using assms(3) l unfolding s lo_def u_def by simp
    show "\<bar>sqrt x\<bar> < 2 powi (e + 1)" using assms(4) h unfolding s hi_def u_def by simp
    show "- 1022 \<le> e" by (rule assms(5))
    have "lo / u < sqrt x / u" using l u by (simp add: divide_strict_right_mono)
    then show "of_int n - 1 / 2 < sqrt x / 2 powi (e - 52)" using u by (simp add: lo_def u_def)
    have "sqrt x / u < hi / u" using h u by (simp add: divide_strict_right_mono)
    then show "sqrt x / 2 powi (e - 52) < of_int n + 1 / 2" using u by (simp add: hi_def u_def)
    show "\<bar>of_int n * 2 powi (e - 52)\<bar> < overflowBound" by (rule assms(6))
    show "v = of_int n * 2 powi (e - 52)" by (rule assms(7))
  qed
qed

section \<open>Arithmetic on Numbers\<close>

lemma roundDouble_one [simp]: "roundDouble 1 = Finite 1"
  by (rule roundDouble_eq [where e = 0 and n = "2 ^ 52"]) (simp_all add: overflowBound_def)

lemma fneg_fneg [simp]: "fneg (fneg x) = x"
  by (cases x) simp_all

lemma infinityOf_minus: "s \<noteq> 0 \<Longrightarrow> infinityOf (- s) = fneg (infinityOf s)"
  by (simp add: infinityOf_def)

lemma signOf_fneg [simp]: "signOf (fneg x) = - signOf x"
  by (cases x) (simp_all add: sgn_minus)

lemma fsub_swap: "fsub (Finite b) (Finite a) = fneg (fsub (Finite a) (Finite b))"
proof -
  have "b + - a = - (a + - b)" by simp
  then show ?thesis by (simp only: fsub_def fneg.simps fadd.simps roundDouble_minus)
qed

lemma fmul_fneg_left: "fmul (fneg x) y = fneg (fmul x y)"
proof (cases "\<exists>a b. x = Finite a \<and> y = Finite b")
  case True
  then obtain a b where "x = Finite a" "y = Finite b" by blast
  then show ?thesis using roundDouble_minus [of "a * b"] by simp
next
  case False
  then show ?thesis
    by (cases x; cases y) (simp_all add: infinityOf_minus)
qed

lemma fmul_commute: "fmul x y = fmul y x"
  by (cases x; cases y) (simp_all add: mult.commute)

lemma fmul_fneg_right: "fmul x (fneg y) = fneg (fmul x y)"
  by (metis fmul_commute fmul_fneg_left)

lemma fdiv_fneg_left:
  assumes "0 < c"
  shows "fdiv (fneg x) (Finite c) = fneg (fdiv x (Finite c))"
proof (cases x)
  case (Finite a)
  then show ?thesis using assms roundDouble_minus [of "a / c"] by simp
qed (use assms in \<open>simp_all add: infinityOf_def\<close>)

lemma toRadians_fneg: "toRadians (fneg x) = fneg (toRadians x)"
  by (simp add: toRadians_def fmul_fneg_left fdiv_fneg_left)

lemma mathSin_fneg:
  assumes "\<forall>x. approxSin M (- x) = - approxSin M x"
  shows "mathSin M (fneg x) = fneg (mathSin M x)"
proof (cases x)
  case (Finite a)
  then show ?thesis using assms roundDouble_minus [of "approxSin M a"] by simp
qed simp_all

lemma haversineA_sym:
  assumes "\<forall>x. approxSin M (- x) = - approxSin M x"
  shows "haversineA M lat1 lon1 lat2 lon2 = haversineA M lat2 lon2 lat1 lon1"
proof -
  have s: "mathSin M (fdiv (toRadians (fsub (Finite b) (Finite a))) (Finite 2)) =
           fneg (mathSin M (fdiv (toRadians (fsub (Finite a) (Finite b))) (Finite 2)))" for a b
    by (simp add: fsub_swap [of b a] toRadians_fneg fdiv_fneg_left mathSin_fneg [OF assms])
  show ?thesis
    unfolding haversineA_def Let_def s [of lat1 lat2] s [of lon1 lon2]
    by (simp add: fmul_fneg_left fmul_fneg_right fmul_commute [of "mathCos M (toRadians (Finite lat2))"])
qed

section \<open>The distance between a point and itself\<close>

lemma toRadians_zero [simp]: "toRadians (Finite 0) = Finite 0"
  by (simp add: toRadians_def)

lemma toRadians_finite:
  assumes "\<bar>x\<bar> \<le> 2 powi 1000"
  obtains r where "toRadians (Finite x) = Finite r"
proof -
  have pi4: "\<bar>mathPI\<bar> \<le> 2 powi 2" by (simp add: mathPI_def)
  have "\<bar>x * mathPI\<bar> \<le> 2 powi 1000 * 2 powi 2"
    unfolding abs_mult using assms pi4 by (intro mult_mono) simp_all
  also have "\<dots> = (2::real) powi 1002" by (subst power_int_add [symmetric]) simp_all
  finally obtain v where v: "roundDouble (x * mathPI) = Finite v" "\<bar>v\<bar> \<le> 2 powi 1002"
    by (rule roundDouble_le_pow2) simp_all
  have "\<bar>v / 180\<bar> \<le> \<bar>v\<bar>" by (simp add: abs_divide field_simps)
  with v(2) have "\<bar>v / 180\<bar> \<le> 2 powi 1002" by simp
  then obtain r where "roundDouble (v / 180) = Finite r" by (rule roundDouble_le_pow2) simp_all
  with v(1) have "toRadians (Finite x) = Finite r" by (simp add: toRadians_def)
  then show ?thesis by (rule that)
qed

lemma mathCos_finite:
  assumes "\<forall>x. \<bar>approxCos M x\<bar> \<le> 1"
  obtains c where "mathCos M (Finite r) = Finite c" "\<bar>c\<bar> \<le> 1"
proof (cases "r = 0")
  case True
  show ?thesis by (rule that [of 1]) (simp_all add: True)
next
  case False
  have "\<bar>approxCos M r\<bar> \<le> 2 powi 0" using assms by simp
  then obtain c where "roundDouble (approxCos M r) = Finite c" "\<bar>c\<bar> \<le> 2 powi 0"
    by (rule roundDouble_le_pow2) simp_all
  with False show ?thesis by (intro that [of c]) simp_all
qed

lemma haversineA_same:
  assumes "\<forall>x. \<bar>approxCos M x\<bar> \<le> 1" "\<bar>la\<bar> \<le> 2 powi 1000"
  shows "haversineA M la lo la lo = Finite 0"
proof -
  obtain r where r: "toRadians (Finite la) = Finite r" using assms(2) by (rule toRadians_finite)
  obtain c where c: "mathCos M (Finite r) = Finite c" "\<bar>c\<bar> \<le> 1"
    using assms(1) by (rule mathCos_finite)
  have "\<bar>c\<bar> * \<bar>c\<bar> \<le> 1 * 1" using c(2) by (intro mult_mono) simp_all
  then have "\<bar>c * c\<bar> \<le> 2 powi 0" by (simp add: abs_mult)
  then obtain p where p: "roundDouble (c * c) = Finite p" by (rule roundDouble_le_pow2) simp_all
  show ?thesis
    by (simp add: haversineA_def Let_def fsub_def r c p del: mathCos.simps)
qed

lemma centralAngle_zero [simp]: "centralAngle M (Finite 0) = Finite 0"
  by (simp add: centralAngle_def fsub_def)

lemma haversineDistance_same:
  assumes "\<forall>x. \<bar>approxCos M x\<bar> \<le> 1" "\<bar>la\<bar> \<le> 2 powi 1000"
  shows "haversineDistance M la lo la lo = Finite 0"
  by (simp add: haversineDistance_def haversineA_same [OF assms])

section \<open>Square roots of \<^verbatim>\<open>a\<close> and of \<^verbatim>\<open>1 - a\<close>\<close>

lemma fadd_Finite_D:
  assumes "fadd x y = Finite a"
  obtains r where "roundDouble r = Finite a"
  using assms by (cases x; cases y) auto

lemma mathAtan2_NaN_right [simp]: "mathAtan2 M y NaN = NaN"
  by (cases y) simp_all

lemma mathAtan2_not_NaN: "y \<noteq> NaN \<Longrightarrow> x \<noteq> NaN \<Longrightarrow> mathAtan2 M y x \<noteq> NaN"
  by (cases y; cases x) simp_all

lemma fmul_pos_not_NaN: "0 < c \<Longrightarrow> z \<noteq> NaN \<Longrightarrow> fmul (Finite c) z \<noteq> NaN"
  by (cases z) (simp_all add: infinityOf_def)

lemma fmul_NaN_right [simp]: "fmul x NaN = NaN"
  by (cases x) simp_all

lemma one_minus_overshoot:
  assumes "haversineA M lat1 lon1 lat2 lon2 = Finite a" "1 < a"
  shows "mathSqrt (fsub (Finite 1) (Finite a)) = NaN"
proof -
  obtain r where "roundDouble r = Finite a"
    using assms(1) unfolding haversineA_def Let_def by (rule fadd_Finite_D)
  then have "1 + 2 powi (- 52) \<le> a" using assms(2) by (rule roundDouble_above_one)
  then have "1 - a \<le> - (2 powi (- 52))" by simp
  moreover have "(2::real) powi (- 1074) \<le> 2 powi (- 52)"
    by (intro power_int_increasing) simp_all
  ultimately have "1 + - a \<le> - (2 powi (- 1074))" by simp
  then have "roundDouble (1 + - a) = NegInfinity \<or> (\<exists>v. v < 0 \<and> roundDouble (1 + - a) = Finite v)"
    by (rule roundDouble_neg)
  then show ?thesis by (auto simp: fsub_def)
qed

lemma one_minus_in_range:
  assumes "0 \<le> a" "a \<le> 1"
  obtains b where "fsub (Finite 1) (Finite a) = Finite b" "0 \<le> b" "b \<le> 1"
proof -
  have "\<bar>1 + - a\<bar> \<le> 2 powi 0" using assms by simp
  then obtain b where b: "roundDouble (1 + - a) = Finite b" "\<bar>b\<bar> \<le> 2 powi 0"
    by (rule roundDouble_le_pow2) simp_all
  have "0 \<le> 1 + - a" using assms by simp
  then have "roundDouble (1 + - a) = Infinity \<or> (\<exists>v. 0 \<le> v \<and> roundDouble (1 + - a) = Finite v)"
    by (rule roundDouble_nonneg)
  with b have "0 \<le> b" by auto
  with b show ?thesis by (intro that [of b]) (simp_all add: fsub_def)
qed

lemma centralAngle_in_range:
  assumes "0 \<le> a" "a \<le> 1"
  shows "centralAngle M (Finite a) \<noteq> NaN"
proof -
  obtain b where b: "fsub (Finite 1) (Finite a) = Finite b" "0 \<le> b" "b \<le> 1"
    using assms by (rule one_minus_in_range)
  have "mathSqrt (Finite a) \<noteq> NaN" "mathSqrt (Finite b) \<noteq> NaN" using assms b by simp_all
  then have "mathAtan2 M (mathSqrt (Finite a)) (mathSqrt (Finite b)) \<noteq> NaN"
    by (rule mathAtan2_not_NaN)
  then show ?thesis unfolding centralAngle_def b(1) by (intro fmul_pos_not_NaN) simp_all
qed

section \<open>The two distance loops\<close>

lemma foldl_fadd_map:
  "foldl (\<lambda>t i. fadd t (f i)) a xs = foldl fadd a (map f xs)"
  by (induction xs arbitrary: a) simp_all

lemma totalDistance_sum:
  "totalDistance M coords =
     foldl fadd (Finite 0)
       (map (\<lambda>j. haversineDistance M (lat (coords ! (j - 1))) (lon (coords ! (j - 1)))
                                      (lat (coords ! j)) (lon (coords ! j)))
            [1..<length coords])"
  unfolding totalDistance_def by (rule foldl_fadd_map)

lemma chartLoop_gen:
  "foldl (\<lambda>acc i. (fst acc @ [fdiv (fadd (snd acc) (g i)) (Finite 1000)], fadd (snd acc) (g i)))
         (ds, c) [m..<k] =
     (ds @ map (\<lambda>i. fdiv (foldl fadd c (map g [m..<Suc i])) (Finite 1000)) [m..<k],
      foldl fadd c (map g [m..<k]))"
proof (induction k)
  case 0
  then show ?case by simp
next
  case (Suc k)
  show ?case
  proof (cases "m \<le> k")
    case True
    then show ?thesis using Suc by (simp del: upt_Suc add: upt_Suc_append)
  next
    case False
    then show ?thesis by simp
  qed
qed

lemma chartStep_eq:
  "chartStep M coords =
     (\<lambda>acc i. (fst acc @ [fdiv (fadd (snd acc)
                   (haversineDistance M (lat (coords ! (i - 1))) (lon (coords ! (i - 1)))
                                        (lat (coords ! i)) (lon (coords ! i)))) (Finite 1000)],
                fadd (snd acc)
                   (haversineDistance M (lat (coords ! (i - 1))) (lon (coords ! (i - 1)))
                                        (lat (coords ! i)) (lon (coords ! i)))))"
  by (intro ext) (simp add: chartStep_def Let_def)

lemma chartLoop_eq:
  "chartLoop M coords =
     (Finite 0 # map (\<lambda>i. fdiv (foldl fadd (Finite 0)
                 (map (\<lambda>j. haversineDistance M (lat (coords ! (j - 1))) (lon (coords ! (j - 1)))
                                                (lat (coords ! j)) (lon (coords ! j)))
                      [1..<Suc i])) (Finite 1000)) [1..<length coords],
      totalDistance M coords)"
  unfolding chartLoop_def chartStep_eq chartLoop_gen totalDistance_sum by simp

section \<open>Distance to the trail\<close>

lemma lt_trans: "lt a b \<Longrightarrow> lt b c \<Longrightarrow> lt a c"
  by (cases a; cases b; cases c) simp_all

lemma lt_le_trans: "lt a b \<Longrightarrow> \<not> lt c b \<Longrightarrow> c \<noteq> NaN \<Longrightarrow> lt a c"
  by (cases a; cases b; cases c) simp_all

lemma lt_not_NaN: "lt a b \<Longrightarrow> a \<noteq> NaN \<and> b \<noteq> NaN"
  by (cases a; cases b) simp_all

lemma foldl_nearer:
  assumes "acc \<noteq> NaN"
  shows "foldl (nearer M la lo) acc ps \<noteq> NaN
       \<and> (foldl (nearer M la lo) acc ps = acc
          \<or> foldl (nearer M la lo) acc ps \<in> (\<lambda>p. haversineDistance M la lo (lat p) (lon p)) ` set ps)
       \<and> \<not> lt acc (foldl (nearer M la lo) acc ps)
       \<and> (\<forall>p \<in> set ps. \<not> lt (haversineDistance M la lo (lat p) (lon p))
                                (foldl (nearer M la lo) acc ps))"
  using assms
proof (induction ps arbitrary: acc)
  case Nil
  then show ?case by (cases acc) simp_all
next
  case (Cons p ps)
  let ?d = "haversineDistance M la lo (lat p) (lon p)"
  let ?acc' = "nearer M la lo acc p"
  let ?r = "foldl (nearer M la lo) ?acc' ps"
  have acc': "?acc' = (if lt ?d acc then ?d else acc)" by (simp add: nearer_def Let_def)
  have nn: "?acc' \<noteq> NaN" using Cons.prems lt_not_NaN [of ?d acc] by (auto simp: acc')
  note ih = Cons.IH [OF nn]
  have 1: "?r \<noteq> NaN" using ih by blast
  have 2: "?r = acc \<or> ?r \<in> (\<lambda>p. haversineDistance M la lo (lat p) (lon p)) ` set (p # ps)"
    using ih by (auto simp: acc' split: if_splits)
  have 3: "\<not> lt acc ?r"
  proof
    assume a: "lt acc ?r"
    show False
    proof (cases "lt ?d acc")
      case True
      then have "lt ?acc' ?r" using a lt_trans [of ?d acc ?r] by (simp add: acc')
      with ih show False by blast
    next
      case False
      then have "?acc' = acc" by (simp add: acc')
      with a ih show False by simp
    qed
  qed
  have 4: "\<not> lt ?d ?r"
  proof
    assume a: "lt ?d ?r"
    show False
    proof (cases "lt ?d acc")
      case True
      then have "?acc' = ?d" by (simp add: acc')
      with a ih show False by simp
    next
      case False
      have "lt ?d acc" using a 3 Cons.prems by (rule lt_le_trans)
      with False show False by simp
    qed
  qed
  show ?case using 1 2 3 4 ih by simp
qed

lemma getDistanceToTrail_least:
  "getDistanceToTrail M la lo s \<noteq> NaN
   \<and> (getDistanceToTrail M la lo s = Infinity
      \<or> getDistanceToTrail M la lo s
           \<in> (\<lambda>p. haversineDistance M la lo (lat p) (lon p)) ` set (trackData s))
   \<and> (\<forall>p \<in> set (trackData s).
         \<not> lt (haversineDistance M la lo (lat p) (lon p)) (getDistanceToTrail M la lo s))"
  using foldl_nearer [of Infinity M la lo "trackData s"] by (simp add: getDistanceToTrail_def)

lemma onPositionUpdate_indicator:
  "distanceIndicator (onPositionUpdate M p s) =
     (if trackData s = [] then distanceIndicator s
      else distanceIndicator
             (updateDistanceIndicator (getDistanceToTrail M (posLat p) (posLon p) s) s))"
  by (simp add: onPositionUpdate_def updateGPSStatus_def updateDistanceIndicator_def
      getDistanceToTrail_def Let_def)

section \<open>Evaluation on the sample platform\<close>

lemma haversineA_half_turn:
  "haversineA sampleMath 0 0 0 180 = Finite 1"
proof -
  have f1: "fmul (Finite 0) (Finite mathPI) = Finite 0"
    by (simp add: fsub_def)
  have f2: "fdiv (Finite 0) (Finite 180) = Finite 0"
    by (simp add: fsub_def)
  have f3: "toRadians (Finite 0) = Finite 0"
    unfolding toRadians_def by (simp only: f1 f2)
  have f4: "fsub (Finite 0) (Finite 0) = Finite 0"
    by (simp add: fsub_def)
  have f5: "fsub (Finite 180) (Finite 0) = Finite 180"
    proof -
      have "fsub (Finite 180) (Finite 0) = roundDouble (180 + - 0)" by (simp add: fsub_def)
      also have "\<dots> = Finite 180"
        by (rule roundDouble_eq [where e = "7" and n = "6333186975989760"]) (simp_all add: mathPI_def overflowBound_def)
      finally show ?thesis .
    qed
  have f6: "fmul (Finite 180) (Finite mathPI) = Finite (4974073419394997 / 2 ^ 43)"
    proof -
      have "fmul (Finite 180) (Finite mathPI) = roundDouble (180 * mathPI)" by (simp add: fsub_def)
      also have "\<dots> = Finite (4974073419394997 / 2 ^ 43)"
        by (rule roundDouble_eq [where e = "9" and n = "4974073419394997"]) (simp_all add: mathPI_def overflowBound_def)
      finally show ?thesis .
    qed
  have f7: "fdiv (Finite (4974073419394997 / 2 ^ 43)) (Finite 180) = Finite mathPI"
    proof -
      have "fdiv (Finite (4974073419394997 / 2 ^ 43)) (Finite 180) = roundDouble ((4974073419394997 / 2 ^ 43) / 180)" by (simp add: fsub_def)
      also have "\<dots> = Finite mathPI"
        by (rule roundDouble_eq [where e = "1" and n = "7074237752028440"]) (simp_all add: mathPI_def overflowBound_def)
      finally show ?thesis .
    qed
  have f8: "toRadians (Finite 180) = Finite mathPI"
    unfolding toRadians_def by (simp only: f6 f7)
  have f9: "fdiv (Finite 0) (Finite 2) = Finite 0"
    by (simp add: fsub_def)
  have f10: "mathSin sampleMath (Finite 0) = Finite 0"
    by simp
  have f11: "fdiv (Finite mathPI) (Finite 2) = Finite (884279719003555 / 2 ^ 49)"
    proof -
      have "fdiv (Finite mathPI) (Finite 2) = roundDouble (mathPI / 2)" by (simp add: fsub_def)
      also have "\<dots> = Finite (884279719003555 / 2 ^ 49)"
        by (rule roundDouble_eq [where e = "0" and n = "7074237752028440"]) (simp_all add: mathPI_def overflowBound_def)
      finally show ?thesis .
    qed
  have f12: "mathSin sampleMath (Finite (884279719003555 / 2 ^ 49)) = Finite 1"
    proof -
      have a: "approxSin sampleMath (884279719003555 / 2 ^ 49) = 1"
        by (simp add: sampleMath_def sampleSin_def sampleCos_def mathPI_def)
      have b: "roundDouble 1 = Finite 1"
        by (rule roundDouble_eq [where e = "0" and n = "4503599627370496"]) (simp_all add: mathPI_def overflowBound_def)
      show ?thesis by (simp only: mathSin.simps a b) simp
    qed
  have f13: "fmul (Finite 0) (Finite 0) = Finite 0"
    by (simp add: fsub_def)
  have f14: "mathCos sampleMath (Finite 0) = Finite 1"
    by simp
  have f15: "fmul (Finite 1) (Finite 1) = Finite 1"
    proof -
      have "fmul (Finite 1) (Finite 1) = roundDouble (1 * 1)" by (simp add: fsub_def)
      also have "\<dots> = Finite 1"
        by (rule roundDouble_eq [where e = "0" and n = "4503599627370496"]) (simp_all add: mathPI_def overflowBound_def)
      finally show ?thesis .
    qed
  have f16: "fadd (Finite 0) (Finite 1) = Finite 1"
    proof -
      have "fadd (Finite 0) (Finite 1) = roundDouble (0 + 1)" by (simp add: fsub_def)
      also have "\<dots> = Finite 1"
        by (rule roundDouble_eq [where e = "0" and n = "4503599627370496"]) (simp_all add: mathPI_def overflowBound_def)
      finally show ?thesis .
    qed
  show ?thesis
    unfolding haversineA_def Let_def by (simp only: f1 f2 f3 f4 f5 f6 f7 f8 f9 f10 f11 f12 f13 f14 f15 f16)
qed

lemma centralAngle_one:
  "centralAngle sampleMath (Finite 1) = Finite mathPI"
proof -
  have f1: "fsub (Finite 1) (Finite 1) = Finite 0"
    by (simp add: fsub_def)
  have f2: "mathSqrt (Finite 1) = Finite 1"
    by simp
  have f3: "mathSqrt (Finite 0) = Finite 0"
    by simp
  have f4: "mathAtan2 sampleMath (Finite 1) (Finite 0) = Finite (884279719003555 / 2 ^ 49)"
    proof -
      have a: "approxAtan2 sampleMath (Finite 1) (Finite 0) = (884279719003555 / 2 ^ 49)"
        by (simp add: sampleMath_def sampleAtan2_def mathPI_def)
      have b: "roundDouble (884279719003555 / 2 ^ 49) = Finite (884279719003555 / 2 ^ 49)"
        by (rule roundDouble_eq [where e = "0" and n = "7074237752028440"]) (simp_all add: mathPI_def overflowBound_def)
      show ?thesis by (simp only: mathAtan2.simps a b) simp
    qed
  have f5: "fmul (Finite 2) (Finite (884279719003555 / 2 ^ 49)) = Finite mathPI"
    proof -
      have "fmul (Finite 2) (Finite (884279719003555 / 2 ^ 49)) = roundDouble (2 * (884279719003555 / 2 ^ 49))" by (simp add: fsub_def)
      also have "\<dots> = Finite mathPI"
        by (rule roundDouble_eq [where e = "1" and n = "7074237752028440"]) (simp_all add: mathPI_def overflowBound_def)
      finally show ?thesis .
    qed
  show ?thesis
    unfolding centralAngle_def by (simp only: f1 f2 f3 f4 f5)
qed

lemma earth_half_turn:
  "fmul (Finite 6371000) (Finite mathPI) = Finite (5372758950969361 / 2 ^ 28)"
  proof -
  have "fmul (Finite 6371000) (Finite mathPI) = roundDouble (6371000 * mathPI)" by (simp add: fsub_def)
  also have "\<dots> = Finite (5372758950969361 / 2 ^ 28)"
    by (rule roundDouble_eq [where e = "24" and n = "5372758950969361"]) (simp_all add: mathPI_def overflowBound_def)
  finally show ?thesis .
qed

lemma half_turn_km:
  "fdiv (Finite (5372758950969361 / 2 ^ 28)) (Finite 1000) = Finite (2750852582896313 / 2 ^ 37)"
  proof -
  have "fdiv (Finite (5372758950969361 / 2 ^ 28)) (Finite 1000) = roundDouble ((5372758950969361 / 2 ^ 28) / 1000)" by (simp add: fsub_def)
  also have "\<dots> = Finite (2750852582896313 / 2 ^ 37)"
    by (rule roundDouble_eq [where e = "14" and n = "5501705165792626"]) (simp_all add: mathPI_def overflowBound_def)
  finally show ?thesis .
qed

lemma haversineA_overshoot:
  "haversineA sampleMath (- 12) (- 179) 12 1 = Finite (4503599627370497 / 2 ^ 52)"
proof -
  have f1: "fmul (Finite (- 12)) (Finite mathPI) = Finite (- 2652839157010665 / 2 ^ 46)"
    proof -
      have "fmul (Finite (- 12)) (Finite mathPI) = roundDouble ((- 12) * mathPI)" by (simp add: fsub_def)
      also have "\<dots> = Finite (- 2652839157010665 / 2 ^ 46)"
        by (rule roundDouble_eq [where e = "5" and n = "-5305678314021330"]) (simp_all add: mathPI_def overflowBound_def)
      finally show ?thesis .
    qed
  have f2: "fdiv (Finite (- 2652839157010665 / 2 ^ 46)) (Finite 180) = Finite (- 7545853602163669 / 2 ^ 55)"
    proof -
      have "fdiv (Finite (- 2652839157010665 / 2 ^ 46)) (Finite 180) = roundDouble ((- 2652839157010665 / 2 ^ 46) / 180)" by (simp add: fsub_def)
      also have "\<dots> = Finite (- 7545853602163669 / 2 ^ 55)"
        by (rule roundDouble_eq [where e = "-3" and n = "-7545853602163669"]) (simp_all add: mathPI_def overflowBound_def)
      finally show ?thesis .
    qed
  have f3: "toRadians (Finite (- 12)) = Finite (- 7545853602163669 / 2 ^ 55)"
    unfolding toRadians_def by (simp only: f1 f2)
  have f4: "fmul (Finite 12) (Finite mathPI) = Finite (2652839157010665 / 2 ^ 46)"
    proof -
      have "fmul (Finite 12) (Finite mathPI) = roundDouble (12 * mathPI)" by (simp add: fsub_def)
      also have "\<dots> = Finite (2652839157010665 / 2 ^ 46)"
        by (rule roundDouble_eq [where e = "5" and n = "5305678314021330"]) (simp_all add: mathPI_def overflowBound_def)
      finally show ?thesis .
    qed
  have f5: "fdiv (Finite (2652839157010665 / 2 ^ 46)) (Finite 180) = Finite (7545853602163669 / 2 ^ 55)"
    proof -
      have "fdiv (Finite (2652839157010665 / 2 ^ 46)) (Finite 180) = roundDouble ((2652839157010665 / 2 ^ 46) / 180)" by (simp add: fsub_def)
      also have "\<dots> = Finite (7545853602163669 / 2 ^ 55)"
        by (rule roundDouble_eq [where e = "-3" and n = "7545853602163669"]) (simp_all add: mathPI_def overflowBound_def)
      finally show ?thesis .
    qed
  have f6: "toRadians (Finite 12) = Finite (7545853602163669 / 2 ^ 55)"
    unfolding toRadians_def by (simp only: f4 f5)
  have f7: "fsub (Finite 12) (Finite (- 12)) = Finite 24"
    proof -
      have "fsub (Finite 12) (Finite (- 12)) = roundDouble (12 + - (- 12))" by (simp add: fsub_def)
      also have "\<dots> = Finite 24"
        by (rule roundDouble_eq [where e = "4" and n = "6755399441055744"]) (simp_all add: mathPI_def overflowBound_def)
      finally show ?thesis .
    qed
  have f8: "fmul (Finite 24) (Finite mathPI) = Finite (2652839157010665 / 2 ^ 45)"
    proof -
      have "fmul (Finite 24) (Finite mathPI) = roundDouble (24 * mathPI)" by (simp add: fsub_def)
      also have "\<dots> = Finite (2652839157010665 / 2 ^ 45)"
        by (rule roundDouble_eq [where e = "6" and n = "5305678314021330"]) (simp_all add: mathPI_def overflowBound_def)
      finally show ?thesis .
    qed
  have f9: "fdiv (Finite (2652839157010665 / 2 ^ 45)) (Finite 180) = Finite (7545853602163669 / 2 ^ 54)"
    proof -
      have "fdiv (Finite (2652839157010665 / 2 ^ 45)) (Finite 180) = roundDouble ((2652839157010665 / 2 ^ 45) / 180)" by (simp add: fsub_def)
      also have "\<dots> = Finite (7545853602163669 / 2 ^ 54)"
        by (rule roundDouble_eq [where e = "-2" and n = "7545853602163669"]) (simp_all add: mathPI_def overflowBound_def)
      finally show ?thesis .
    qed
  have f10: "toRadians (Finite 24) = Finite (7545853602163669 / 2 ^ 54)"
    unfolding toRadians_def by (simp only: f8 f9)
  have f11: "fsub (Finite 1) (Finite (- 179)) = Finite 180"
    proof -
      have "fsub (Finite 1) (Finite (- 179)) = roundDouble (1 + - (- 179))" by (simp add: fsub_def)
      also have "\<dots> = Finite 180"
        by (rule roundDouble_eq [where e = "7" and n = "6333186975989760"]) (simp_all add: mathPI_def overflowBound_def)
      finally show ?thesis .
    qed
  have f12: "fmul (Finite 180) (Finite mathPI) = Finite (4974073419394997 / 2 ^ 43)"
    proof -
      have "fmul (Finite 180) (Finite mathPI) = roundDouble (180 * mathPI)" by (simp add: fsub_def)
      also have "\<dots> = Finite (4974073419394997 / 2 ^ 43)"
        by (rule roundDouble_eq [where e = "9" and n = "4974073419394997"]) (simp_all add: mathPI_def overflowBound_def)
      finally show ?thesis .
    qed
  have f13: "fdiv (Finite (4974073419394997 / 2 ^ 43)) (Finite 180) = Finite mathPI"
    proof -
      have "fdiv (Finite (4974073419394997 / 2 ^ 43)) (Finite 180) = roundDouble ((4974073419394997 / 2 ^ 43) / 180)" by (simp add: fsub_def)
      also have "\<dots> = Finite mathPI"
        by (rule roundDouble_eq [where e = "1" and n = "7074237752028440"]) (simp_all add: mathPI_def overflowBound_def)
      finally show ?thesis .
    qed
  have f14: "toRadians (Finite 180) = Finite mathPI"
    unfolding toRadians_def by (simp only: f12 f13)
  have f15: "fdiv (Finite (7545853602163669 / 2 ^ 54)) (Finite 2) = Finite (7545853602163669 / 2 ^ 55)"
    proof -
      have "fdiv (Finite (7545853602163669 / 2 ^ 54)) (Finite 2) = roundDouble ((7545853602163669 / 2 ^ 54) / 2)" by (simp add: fsub_def)
      also have "\<dots> = Finite (7545853602163669 / 2 ^ 55)"
        by (rule roundDouble_eq [where e = "-3" and n = "7545853602163669"]) (simp_all add: mathPI_def overflowBound_def)
      finally show ?thesis .
    qed
  have f16: "mathSin sampleMath (Finite (7545853602163669 / 2 ^ 55)) = Finite (7490808106342645 / 2 ^ 55)"
    proof -
      have a: "approxSin sampleMath (7545853602163669 / 2 ^ 55) = (7490808106342645 / 2 ^ 55)"
        by (simp add: sampleMath_def sampleSin_def sampleCos_def mathPI_def)
      have b: "roundDouble (7490808106342645 / 2 ^ 55) = Finite (7490808106342645 / 2 ^ 55)"
        by (rule roundDouble_eq [where e = "-3" and n = "7490808106342645"]) (simp_all add: mathPI_def overflowBound_def)
      show ?thesis by (simp only: mathSin.simps a b) simp
    qed
  have f17: "fdiv (Finite mathPI) (Finite 2) = Finite (884279719003555 / 2 ^ 49)"
    proof -
      have "fdiv (Finite mathPI) (Finite 2) = roundDouble (mathPI / 2)" by (simp add: fsub_def)
      also have "\<dots> = Finite (884279719003555 / 2 ^ 49)"
        by (rule roundDouble_eq [where e = "0" and n = "7074237752028440"]) (simp_all add: mathPI_def overflowBound_def)
      finally show ?thesis .
    qed
  have f18: "mathSin sampleMath (Finite (884279719003555 / 2 ^ 49)) = Finite 1"
    proof -
      have a: "approxSin sampleMath (884279719003555 / 2 ^ 49) = 1"
        by (simp add: sampleMath_def sampleSin_def sampleCos_def mathPI_def)
      have b: "roundDouble 1 = Finite 1"
        by (rule roundDouble_eq [where e = "0" and n = "4503599627370496"]) (simp_all add: mathPI_def overflowBound_def)
      show ?thesis by (simp only: mathSin.simps a b) simp
    qed
  have f19: "fmul (Finite (7490808106342645 / 2 ^ 55)) (Finite (7490808106342645 / 2 ^ 55)) = Finite (6229706315924309 / 2 ^ 57)"
    proof -
      have "fmul (Finite (7490808106342645 / 2 ^ 55)) (Finite (7490808106342645 / 2 ^ 55)) = roundDouble ((7490808106342645 / 2 ^ 55) * (7490808106342645 / 2 ^ 55))" by (simp add: fsub_def)
      also have "\<dots> = Finite (6229706315924309 / 2 ^ 57)"
        by (rule roundDouble_eq [where e = "-5" and n = "6229706315924309"]) (simp_all add: mathPI_def overflowBound_def)
      finally show ?thesis .
    qed
  have f20: "mathCos sampleMath (Finite (- 7545853602163669 / 2 ^ 55)) = Finite (68831018284033 / 2 ^ 46)"
    proof -
      have a: "approxCos sampleMath (- 7545853602163669 / 2 ^ 55) = (68831018284033 / 2 ^ 46)"
        by (simp add: sampleMath_def sampleSin_def sampleCos_def mathPI_def)
      have b: "roundDouble (68831018284033 / 2 ^ 46) = Finite (68831018284033 / 2 ^ 46)"
        by (rule roundDouble_eq [where e = "-1" and n = "8810370340356224"]) (simp_all add: mathPI_def overflowBound_def)
      show ?thesis by (simp only: mathCos.simps a b) simp
    qed
  have f21: "mathCos sampleMath (Finite (7545853602163669 / 2 ^ 55)) = Finite (68831018284033 / 2 ^ 46)"
    proof -
      have a: "approxCos sampleMath (7545853602163669 / 2 ^ 55) = (68831018284033 / 2 ^ 46)"
        by (simp add: sampleMath_def sampleSin_def sampleCos_def mathPI_def)
      have b: "roundDouble (68831018284033 / 2 ^ 46) = Finite (68831018284033 / 2 ^ 46)"
        by (rule roundDouble_eq [where e = "-1" and n = "8810370340356224"]) (simp_all add: mathPI_def overflowBound_def)
      show ?thesis by (simp only: mathCos.simps a b) simp
    qed
  have f22: "fmul (Finite (68831018284033 / 2 ^ 46)) (Finite (68831018284033 / 2 ^ 46)) = Finite (2154460652498931 / 2 ^ 51)"
    proof -
      have "fmul (Finite (68831018284033 / 2 ^ 46)) (Finite (68831018284033 / 2 ^ 46)) = roundDouble ((68831018284033 / 2 ^ 46) * (68831018284033 / 2 ^ 46))" by (simp add: fsub_def)
      also have "\<dots> = Finite (2154460652498931 / 2 ^ 51)"
        by (rule roundDouble_eq [where e = "-1" and n = "8617842609995724"]) (simp_all add: mathPI_def overflowBound_def)
      finally show ?thesis .
    qed
  have f23: "fmul (Finite (2154460652498931 / 2 ^ 51)) (Finite 1) = Finite (2154460652498931 / 2 ^ 51)"
    proof -
      have "fmul (Finite (2154460652498931 / 2 ^ 51)) (Finite 1) = roundDouble ((2154460652498931 / 2 ^ 51) * 1)" by (simp add: fsub_def)
      also have "\<dots> = Finite (2154460652498931 / 2 ^ 51)"
        by (rule roundDouble_eq [where e = "-1" and n = "8617842609995724"]) (simp_all add: mathPI_def overflowBound_def)
      finally show ?thesis .
    qed
  have f24: "fadd (Finite (6229706315924309 / 2 ^ 57)) (Finite (2154460652498931 / 2 ^ 51)) = Finite (4503599627370497 / 2 ^ 52)"
    proof -
      have "fadd (Finite (6229706315924309 / 2 ^ 57)) (Finite (2154460652498931 / 2 ^ 51)) = roundDouble ((6229706315924309 / 2 ^ 57) + (2154460652498931 / 2 ^ 51))" by (simp add: fsub_def)
      also have "\<dots> = Finite (4503599627370497 / 2 ^ 52)"
        by (rule roundDouble_eq [where e = "0" and n = "4503599627370497"]) (simp_all add: mathPI_def overflowBound_def)
      finally show ?thesis .
    qed
  show ?thesis
    unfolding haversineA_def Let_def by (simp only: f1 f2 f3 f4 f5 f6 f7 f8 f9 f10 f11 f12 f13 f14 f15 f16 f17 f18 f19 f20 f21 f22 f23 f24)
qed

lemma haversineA_37:
  "haversineA sampleMath 0 0 0 37 = Finite (453432520958331 / 2 ^ 52)"
proof -
  have f1: "fmul (Finite 0) (Finite mathPI) = Finite 0"
    by (simp add: fsub_def)
  have f2: "fdiv (Finite 0) (Finite 180) = Finite 0"
    by (simp add: fsub_def)
  have f3: "toRadians (Finite 0) = Finite 0"
    unfolding toRadians_def by (simp only: f1 f2)
  have f4: "fsub (Finite 0) (Finite 0) = Finite 0"
    by (simp add: fsub_def)
  have f5: "fsub (Finite 37) (Finite 0) = Finite 37"
    proof -
      have "fsub (Finite 37) (Finite 0) = roundDouble (37 + - 0)" by (simp add: fsub_def)
      also have "\<dots> = Finite 37"
        by (rule roundDouble_eq [where e = "5" and n = "5207287069147136"]) (simp_all add: mathPI_def overflowBound_def)
      finally show ?thesis .
    qed
  have f6: "fmul (Finite 37) (Finite mathPI) = Finite (2044896850195721 / 2 ^ 44)"
    proof -
      have "fmul (Finite 37) (Finite mathPI) = roundDouble (37 * mathPI)" by (simp add: fsub_def)
      also have "\<dots> = Finite (2044896850195721 / 2 ^ 44)"
        by (rule roundDouble_eq [where e = "6" and n = "8179587400782884"]) (simp_all add: mathPI_def overflowBound_def)
      finally show ?thesis .
    qed
  have f7: "fdiv (Finite (2044896850195721 / 2 ^ 44)) (Finite 180) = Finite (2908297742500581 / 2 ^ 52)"
    proof -
      have "fdiv (Finite (2044896850195721 / 2 ^ 44)) (Finite 180) = roundDouble ((2044896850195721 / 2 ^ 44) / 180)" by (simp add: fsub_def)
      also have "\<dots> = Finite (2908297742500581 / 2 ^ 52)"
        by (rule roundDouble_eq [where e = "-1" and n = "5816595485001162"]) (simp_all add: mathPI_def overflowBound_def)
      finally show ?thesis .
    qed
  have f8: "toRadians (Finite 37) = Finite (2908297742500581 / 2 ^ 52)"
    unfolding toRadians_def by (simp only: f6 f7)
  have f9: "fdiv (Finite 0) (Finite 2) = Finite 0"
    by (simp add: fsub_def)
  have f10: "mathSin sampleMath (Finite 0) = Finite 0"
    by simp
  have f11: "fdiv (Finite (2908297742500581 / 2 ^ 52)) (Finite 2) = Finite (2908297742500581 / 2 ^ 53)"
    proof -
      have "fdiv (Finite (2908297742500581 / 2 ^ 52)) (Finite 2) = roundDouble ((2908297742500581 / 2 ^ 52) / 2)" by (simp add: fsub_def)
      also have "\<dots> = Finite (2908297742500581 / 2 ^ 53)"
        by (rule roundDouble_eq [where e = "-2" and n = "5816595485001162"]) (simp_all add: mathPI_def overflowBound_def)
      finally show ?thesis .
    qed
  have f12: "mathSin sampleMath (Finite (2908297742500581 / 2 ^ 53)) = Finite (5716052529395585 / 2 ^ 54)"
    proof -
      have a: "approxSin sampleMath (2908297742500581 / 2 ^ 53) = (5716052529395585 / 2 ^ 54)"
        by (simp add: sampleMath_def sampleSin_def sampleCos_def mathPI_def)
      have b: "roundDouble (5716052529395585 / 2 ^ 54) = Finite (5716052529395585 / 2 ^ 54)"
        by (rule roundDouble_eq [where e = "-2" and n = "5716052529395585"]) (simp_all add: mathPI_def overflowBound_def)
      show ?thesis by (simp only: mathSin.simps a b) simp
    qed
  have f13: "fmul (Finite 0) (Finite 0) = Finite 0"
    by (simp add: fsub_def)
  have f14: "mathCos sampleMath (Finite 0) = Finite 1"
    by simp
  have f15: "fmul (Finite 1) (Finite 1) = Finite 1"
    proof -
      have "fmul (Finite 1) (Finite 1) = roundDouble (1 * 1)" by (simp add: fsub_def)
      also have "\<dots> = Finite 1"
        by (rule roundDouble_eq [where e = "0" and n = "4503599627370496"]) (simp_all add: mathPI_def overflowBound_def)
      finally show ?thesis .
    qed
  have f16: "fmul (Finite 1) (Finite (5716052529395585 / 2 ^ 54)) = Finite (5716052529395585 / 2 ^ 54)"
    proof -
      have "fmul (Finite 1) (Finite (5716052529395585 / 2 ^ 54)) = roundDouble (1 * (5716052529395585 / 2 ^ 54))" by (simp add: fsub_def)
      also have "\<dots> = Finite (5716052529395585 / 2 ^ 54)"
        by (rule roundDouble_eq [where e = "-2" and n = "5716052529395585"]) (simp_all add: mathPI_def overflowBound_def)
      finally show ?thesis .
    qed
  have f17: "fmul (Finite (5716052529395585 / 2 ^ 54)) (Finite (5716052529395585 / 2 ^ 54)) = Finite (453432520958331 / 2 ^ 52)"
    proof -
      have "fmul (Finite (5716052529395585 / 2 ^ 54)) (Finite (5716052529395585 / 2 ^ 54)) = roundDouble ((5716052529395585 / 2 ^ 54) * (5716052529395585 / 2 ^ 54))" by (simp add: fsub_def)
      also have "\<dots> = Finite (453432520958331 / 2 ^ 52)"
        by (rule roundDouble_eq [where e = "-4" and n = "7254920335333296"]) (simp_all add: mathPI_def overflowBound_def)
      finally show ?thesis .
    qed
  have f18: "fadd (Finite 0) (Finite (453432520958331 / 2 ^ 52)) = Finite (453432520958331 / 2 ^ 52)"
    proof -
      have "fadd (Finite 0) (Finite (453432520958331 / 2 ^ 52)) = roundDouble (0 + (453432520958331 / 2 ^ 52))" by (simp add: fsub_def)
      also have "\<dots> = Finite (453432520958331 / 2 ^ 52)"
        by (rule roundDouble_eq [where e = "-4" and n = "7254920335333296"]) (simp_all add: mathPI_def overflowBound_def)
      finally show ?thesis .
    qed
  show ?thesis
    unfolding haversineA_def Let_def by (simp only: f1 f2 f3 f4 f5 f6 f7 f8 f9 f10 f11 f12 f13 f14 f15 f16 f17 f18)
qed

lemma centralAngle_37:
  "centralAngle sampleMath (Finite (453432520958331 / 2 ^ 52)) = Finite (2908297742500581 / 2 ^ 52)"
proof -
  have f1: "fsub (Finite 1) (Finite (453432520958331 / 2 ^ 52)) = Finite (4050167106412165 / 2 ^ 52)"
    proof -
      have "fsub (Finite 1) (Finite (453432520958331 / 2 ^ 52)) = roundDouble (1 + - (453432520958331 / 2 ^ 52))" by (simp add: fsub_def)
      also have "\<dots> = Finite (4050167106412165 / 2 ^ 52)"
        by (rule roundDouble_eq [where e = "-1" and n = "8100334212824330"]) (simp_all add: mathPI_def overflowBound_def)
      finally show ?thesis .
    qed
  have f2: "mathSqrt (Finite (453432520958331 / 2 ^ 52)) = Finite (5716052529395585 / 2 ^ 54)"
    proof -
      have "roundDouble (sqrt (453432520958331 / 2 ^ 52)) = Finite (5716052529395585 / 2 ^ 54)"
        by (rule roundDouble_sqrt [where e = "-2" and n = "5716052529395585"]) (simp_all add: mathPI_def overflowBound_def)
      then show ?thesis by simp
    qed
  have f3: "mathSqrt (Finite (4050167106412165 / 2 ^ 52)) = Finite (2135435030106633 / 2 ^ 51)"
    proof -
      have "roundDouble (sqrt (4050167106412165 / 2 ^ 52)) = Finite (2135435030106633 / 2 ^ 51)"
        by (rule roundDouble_sqrt [where e = "-1" and n = "8541740120426532"]) (simp_all add: mathPI_def overflowBound_def)
      then show ?thesis by simp
    qed
  have f4: "mathAtan2 sampleMath (Finite (5716052529395585 / 2 ^ 54)) (Finite (2135435030106633 / 2 ^ 51)) = Finite (2908297742500581 / 2 ^ 53)"
    proof -
      have a: "approxAtan2 sampleMath (Finite (5716052529395585 / 2 ^ 54)) (Finite (2135435030106633 / 2 ^ 51)) = (2908297742500581 / 2 ^ 53)"
        by (simp add: sampleMath_def sampleAtan2_def mathPI_def)
      have b: "roundDouble (2908297742500581 / 2 ^ 53) = Finite (2908297742500581 / 2 ^ 53)"
        by (rule roundDouble_eq [where e = "-2" and n = "5816595485001162"]) (simp_all add: mathPI_def overflowBound_def)
      show ?thesis by (simp only: mathAtan2.simps a b) simp
    qed
  have f5: "fmul (Finite 2) (Finite (2908297742500581 / 2 ^ 53)) = Finite (2908297742500581 / 2 ^ 52)"
    proof -
      have "fmul (Finite 2) (Finite (2908297742500581 / 2 ^ 53)) = roundDouble (2 * (2908297742500581 / 2 ^ 53))" by (simp add: fsub_def)
      also have "\<dots> = Finite (2908297742500581 / 2 ^ 52)"
        by (rule roundDouble_eq [where e = "-1" and n = "5816595485001162"]) (simp_all add: mathPI_def overflowBound_def)
      finally show ?thesis .
    qed
  show ?thesis
    unfolding centralAngle_def by (simp only: f1 f2 f3 f4 f5)
qed

lemma earth_37:
  "fmul (Finite 6371000) (Finite (2908297742500581 / 2 ^ 52)) = Finite (1104400451032591 / 2 ^ 28)"
  proof -
  have "fmul (Finite 6371000) (Finite (2908297742500581 / 2 ^ 52)) = roundDouble (6371000 * (2908297742500581 / 2 ^ 52))" by (simp add: fsub_def)
  also have "\<dots> = Finite (1104400451032591 / 2 ^ 28)"
    by (rule roundDouble_eq [where e = "21" and n = "8835203608260728"]) (simp_all add: mathPI_def overflowBound_def)
  finally show ?thesis .
qed

lemma km_37:
  "fdiv (Finite (1104400451032591 / 2 ^ 28)) (Finite 1000) = Finite (4523624247429493 / 2 ^ 40)"
  proof -
  have "fdiv (Finite (1104400451032591 / 2 ^ 28)) (Finite 1000) = roundDouble ((1104400451032591 / 2 ^ 28) / 1000)" by (simp add: fsub_def)
  also have "\<dots> = Finite (4523624247429493 / 2 ^ 40)"
    by (rule roundDouble_eq [where e = "12" and n = "4523624247429493"]) (simp_all add: mathPI_def overflowBound_def)
  finally show ?thesis .
qed

lemma back_37:
  "fmul (Finite 1000) (Finite (4523624247429493 / 2 ^ 40)) = Finite (8835203608260729 / 2 ^ 31)"
  proof -
  have "fmul (Finite 1000) (Finite (4523624247429493 / 2 ^ 40)) = roundDouble (1000 * (4523624247429493 / 2 ^ 40))" by (simp add: fsub_def)
  also have "\<dots> = Finite (8835203608260729 / 2 ^ 31)"
    by (rule roundDouble_eq [where e = "21" and n = "8835203608260729"]) (simp_all add: mathPI_def overflowBound_def)
  finally show ?thesis .
qed

lemma haversineA_underflow:
  "haversineA sampleMath 0 0 0 (1 / 2 ^ 600) = Finite 0"
proof -
  have f1: "fmul (Finite 0) (Finite mathPI) = Finite 0"
    by (simp add: fsub_def)
  have f2: "fdiv (Finite 0) (Finite 180) = Finite 0"
    by (simp add: fsub_def)
  have f3: "toRadians (Finite 0) = Finite 0"
    unfolding toRadians_def by (simp only: f1 f2)
  have f4: "fsub (Finite 0) (Finite 0) = Finite 0"
    by (simp add: fsub_def)
  have f5: "fsub (Finite (1 / 2 ^ 600)) (Finite 0) = Finite (1 / 2 ^ 600)"
    proof -
      have "fsub (Finite (1 / 2 ^ 600)) (Finite 0) = roundDouble ((1 / 2 ^ 600) + - 0)" by (simp add: fsub_def)
      also have "\<dots> = Finite (1 / 2 ^ 600)"
        by (rule roundDouble_eq [where e = "-600" and n = "4503599627370496"]) (simp_all add: mathPI_def overflowBound_def)
      finally show ?thesis .
    qed
  have f6: "fmul (Finite (1 / 2 ^ 600)) (Finite mathPI) = Finite (884279719003555 / 2 ^ 648)"
    proof -
      have "fmul (Finite (1 / 2 ^ 600)) (Finite mathPI) = roundDouble ((1 / 2 ^ 600) * mathPI)" by (simp add: fsub_def)
      also have "\<dots> = Finite (884279719003555 / 2 ^ 648)"
        by (rule roundDouble_eq [where e = "-599" and n = "7074237752028440"]) (simp_all add: mathPI_def overflowBound_def)
      finally show ?thesis .
    qed
  have f7: "fdiv (Finite (884279719003555 / 2 ^ 648)) (Finite 180) = Finite (5030569068109113 / 2 ^ 658)"
    proof -
      have "fdiv (Finite (884279719003555 / 2 ^ 648)) (Finite 180) = roundDouble ((884279719003555 / 2 ^ 648) / 180)" by (simp add: fsub_def)
      also have "\<dots> = Finite (5030569068109113 / 2 ^ 658)"
        by (rule roundDouble_eq [where e = "-606" and n = "5030569068109113"]) (simp_all add: mathPI_def overflowBound_def)
      finally show ?thesis .
    qed
  have f8: "toRadians (Finite (1 / 2 ^ 600)) = Finite (5030569068109113 / 2 ^ 658)"
    unfolding toRadians_def by (simp only: f6 f7)
  have f9: "fdiv (Finite 0) (Finite 2) = Finite 0"
    by (simp add: fsub_def)
  have f10: "mathSin sampleMath (Finite 0) = Finite 0"
    by simp
  have f11: "fdiv (Finite (5030569068109113 / 2 ^ 658)) (Finite 2) = Finite (5030569068109113 / 2 ^ 659)"
    proof -
      have "fdiv (Finite (5030569068109113 / 2 ^ 658)) (Finite 2) = roundDouble ((5030569068109113 / 2 ^ 658) / 2)" by (simp add: fsub_def)
      also have "\<dots> = Finite (5030569068109113 / 2 ^ 659)"
        by (rule roundDouble_eq [where e = "-607" and n = "5030569068109113"]) (simp_all add: mathPI_def overflowBound_def)
      finally show ?thesis .
    qed
  have f12: "mathSin sampleMath (Finite (5030569068109113 / 2 ^ 659)) = Finite (5030569068109113 / 2 ^ 659)"
    proof -
      have a: "approxSin sampleMath (5030569068109113 / 2 ^ 659) = (5030569068109113 / 2 ^ 659)"
        by (simp add: sampleMath_def sampleSin_def sampleCos_def mathPI_def)
      have b: "roundDouble (5030569068109113 / 2 ^ 659) = Finite (5030569068109113 / 2 ^ 659)"
        by (rule roundDouble_eq [where e = "-607" and n = "5030569068109113"]) (simp_all add: mathPI_def overflowBound_def)
      show ?thesis by (simp only: mathSin.simps a b) simp
    qed
  have f13: "fmul (Finite 0) (Finite 0) = Finite 0"
    by (simp add: fsub_def)
  have f14: "mathCos sampleMath (Finite 0) = Finite 1"
    by simp
  have f15: "fmul (Finite 1) (Finite 1) = Finite 1"
    proof -
      have "fmul (Finite 1) (Finite 1) = roundDouble (1 * 1)" by (simp add: fsub_def)
      also have "\<dots> = Finite 1"
        by (rule roundDouble_eq [where e = "0" and n = "4503599627370496"]) (simp_all add: mathPI_def overflowBound_def)
      finally show ?thesis .
    qed
  have f16: "fmul (Finite 1) (Finite (5030569068109113 / 2 ^ 659)) = Finite (5030569068109113 / 2 ^ 659)"
    proof -
      have "fmul (Finite 1) (Finite (5030569068109113 / 2 ^ 659)) = roundDouble (1 * (5030569068109113 / 2 ^ 659))" by (simp add: fsub_def)
      also have "\<dots> = Finite (5030569068109113 / 2 ^ 659)"
        by (rule roundDouble_eq [where e = "-607" and n = "5030569068109113"]) (simp_all add: mathPI_def overflowBound_def)
      finally show ?thesis .
    qed
  have f17: "fmul (Finite (5030569068109113 / 2 ^ 659)) (Finite (5030569068109113 / 2 ^ 659)) = Finite 0"
    proof -
      have "fmul (Finite (5030569068109113 / 2 ^ 659)) (Finite (5030569068109113 / 2 ^ 659)) = roundDouble ((5030569068109113 / 2 ^ 659) * (5030569068109113 / 2 ^ 659))" by (simp add: fsub_def)
      also have "\<dots> = Finite 0" by (rule roundDouble_tiny) (simp add: mathPI_def overflowBound_def)
      finally show ?thesis .
    qed
  have f18: "fadd (Finite 0) (Finite 0) = Finite 0"
    by (simp add: fsub_def)
  show ?thesis
    unfolding haversineA_def Let_def by (simp only: f1 f2 f3 f4 f5 f6 f7 f8 f9 f10 f11 f12 f13 f14 f15 f16 f17 f18)
qed

lemma centralAngle_overshoot:
  "centralAngle sampleMath (Finite (4503599627370497 / 2 ^ 52)) = NaN"
proof -
  have f1: "fsub (Finite 1) (Finite (4503599627370497 / 2 ^ 52)) = Finite (- 1 / 2 ^ 52)"
    proof -
      have "fsub (Finite 1) (Finite (4503599627370497 / 2 ^ 52)) = roundDouble (1 + - (4503599627370497 / 2 ^ 52))" by (simp add: fsub_def)
      also have "\<dots> = Finite (- 1 / 2 ^ 52)"
        by (rule roundDouble_eq [where e = "-52" and n = "-4503599627370496"]) (simp_all add: mathPI_def overflowBound_def)
      finally show ?thesis .
    qed
  have f2: "mathSqrt (Finite (- 1 / 2 ^ 52)) = NaN"
    by simp
  have f3: "mathAtan2 sampleMath (mathSqrt (Finite (4503599627370497 / 2 ^ 52))) NaN = NaN"
    by simp
  have f4: "fmul (Finite 2) NaN = NaN"
    by simp
  show ?thesis
    unfolding centralAngle_def by (simp only: f1 f2 f3 f4)
qed

lemma one_minus_overshoot_value:
  "fsub (Finite 1) (Finite (4503599627370497 / 2 ^ 52)) = Finite (- 1 / 2 ^ 52)"
  proof -
  have "fsub (Finite 1) (Finite (4503599627370497 / 2 ^ 52)) = roundDouble (1 + - (4503599627370497 / 2 ^ 52))" by (simp add: fsub_def)
  also have "\<dots> = Finite (- 1 / 2 ^ 52)"
    by (rule roundDouble_eq [where e = "-52" and n = "-4503599627370496"]) (simp_all add: mathPI_def overflowBound_def)
  finally show ?thesis .
qed

lemma add_37:
  "fadd (Finite 0) (Finite (1104400451032591 / 2 ^ 28)) = Finite (1104400451032591 / 2 ^ 28)"
  proof -
  have "fadd (Finite 0) (Finite (1104400451032591 / 2 ^ 28)) = roundDouble (0 + (1104400451032591 / 2 ^ 28))" by (simp add: fsub_def)
  also have "\<dots> = Finite (1104400451032591 / 2 ^ 28)"
    by (rule roundDouble_eq [where e = "21" and n = "8835203608260728"]) (simp_all add: mathPI_def overflowBound_def)
  finally show ?thesis .
qed

lemma add_half_turn:
  "fadd (Finite 0) (Finite (5372758950969361 / 2 ^ 28)) = Finite (5372758950969361 / 2 ^ 28)"
  proof -
  have "fadd (Finite 0) (Finite (5372758950969361 / 2 ^ 28)) = roundDouble (0 + (5372758950969361 / 2 ^ 28))" by (simp add: fsub_def)
  also have "\<dots> = Finite (5372758950969361 / 2 ^ 28)"
    by (rule roundDouble_eq [where e = "24" and n = "5372758950969361"]) (simp_all add: mathPI_def overflowBound_def)
  finally show ?thesis .
qed

section \<open>Shape matching\<close>

lemma bindE_simps [simp]:
  "bindE (Inl e) f = Inl e"
  "bindE (Inr x) f = f x"
  by (simp_all add: bindE_def)

text \<open>
  C1. The shapes are tried in a fixed order and the first match wins. A document whose
  \<^verbatim>\<open>data.trackData\<close> is a non-empty array resolves to the first element when that is an
  array and to \<^verbatim>\<open>trackData\<close> itself otherwise, and such a document is never a bare
  array; adding a top-level \<^verbatim>\<open>coordinates\<close> key to it changes nothing. A bare array
  resolves to itself. The \<^verbatim>\<open>coordinates\<close> field is mapped when the document is not an
  array and \<^verbatim>\<open>json.data && json.data.trackData\<close> is falsy.
\<close>

theorem shape_priority:
  "(getProp json ''data'' = Inr d \<and> getProp d ''trackData'' = Inr (JArr (x # xs)) \<longrightarrow>
      resolveCoords json = Inr (if isArray x then arrayElems x else x # xs) \<and> \<not> isArray json)
   \<and> (getProp (JObj kvs) ''data'' = Inr d \<and> getProp d ''trackData'' = Inr (JArr (x # xs)) \<longrightarrow>
      resolveCoords (JObj ((''coordinates'', c) # kvs)) =
        Inr (if isArray x then arrayElems x else x # xs))
   \<and> (json = JArr ps \<longrightarrow> resolveCoords json = Inr ps)
   \<and> (getProp json ''data'' = Inr d
        \<and> (if truthy d then getProp d ''trackData'' else Inr d) = Inr t \<and> \<not> truthy t
        \<and> \<not> isArray json \<and> getProp json ''coordinates'' = Inr (JArr cs) \<longrightarrow>
      resolveCoords json = mapE coordToPoint cs)"
proof (intro conjI impI)
  assume h: "getProp json ''data'' = Inr d \<and> getProp d ''trackData'' = Inr (JArr (x # xs))"
  then have td: "truthy d" by (cases d) auto
  with h show "resolveCoords json = Inr (if isArray x then arrayElems x else x # xs)"
    by (simp add: resolveCoords_def)
  from h td show "\<not> isArray json" by (cases json) auto
next
  assume h: "getProp (JObj kvs) ''data'' = Inr d
             \<and> getProp d ''trackData'' = Inr (JArr (x # xs))"
  then have td: "truthy d" by (cases d) auto
  from h have "getProp (JObj ((''coordinates'', c) # kvs)) ''data'' = Inr d" by simp
  with h td show "resolveCoords (JObj ((''coordinates'', c) # kvs)) =
        Inr (if isArray x then arrayElems x else x # xs)"
    by (simp add: resolveCoords_def)
next
  assume "json = JArr ps"
  then show "resolveCoords json = Inr ps" by (simp add: resolveCoords_def)
next
  assume h: "getProp json ''data'' = Inr d
        \<and> (if truthy d then getProp d ''trackData'' else Inr d) = Inr t \<and> \<not> truthy t
        \<and> \<not> isArray json \<and> getProp json ''coordinates'' = Inr (JArr cs)"
  then show "resolveCoords json = mapE coordToPoint cs"
    by (simp add: resolveCoords_def)
qed

theorem shape_priority_witness:
  "getProp docBoth ''data'' = Inr (JObj [(''trackData'', JArr [JArr [pointA]])])
   \<and> getProp (JObj [(''trackData'', JArr [JArr [pointA]])]) ''trackData'' =
       Inr (JArr [JArr [pointA]])
   \<and> getProp docBoth ''coordinates'' = Inr (JArr [JArr [JNum 180, JNum 0]])
   \<and> resolveCoords docBoth = Inr [pointA]
   \<and> resolveCoords
        (JObj [(''coordinates'', JArr [JArr [JNum 180, JNum 0]]),
               (''data'', JObj [(''trackData'', JArr [JArr [pointA]])])]) = Inr [pointA]
   \<and> resolveCoords (JArr [pointA, pointB]) = Inr [pointA, pointB]
   \<and> getProp docCoordinates ''data'' = Inr JUndefined \<and> \<not> truthy JUndefined
   \<and> \<not> isArray docCoordinates
   \<and> getProp docCoordinates ''coordinates'' = Inr (JArr [JArr [JNum 180, JNum 0]])
   \<and> resolveCoords docCoordinates =
       Inr [JObj [(''lon'', JNum 180), (''lat'', JNum 0), (''ele'', JNum 0)]]"
  using shape_priority [of docBoth "JObj [(''trackData'', JArr [JArr [pointA]])]"
          "JArr [pointA]" "[]" "[(''data'', JObj [(''trackData'', JArr [JArr [pointA]])])]"
          "JArr [JArr [JNum 180, JNum 0]]" "[pointA]" JUndefined "[]"]
        shape_priority [of "JArr [pointA, pointB]" JUndefined JNull "[]" "[]" JNull
          "[pointA, pointB]" JUndefined "[]"]
        shape_priority [of docCoordinates JUndefined JNull "[]" "[]" JNull "[]" JUndefined
          "[JArr [JNum 180, JNum 0]]"]
  by (simp add: docBoth_def docCoordinates_def coordToPoint_def)

section \<open>Failed loads\<close>

text \<open>
  When shape matching ends with an empty list, the load ends with the alert of line 213
  and only hides the loading overlay: track, layers, markers, statistics and chart are
  the fields of the state it leaves alone, and nothing is drawn or measured. When shape
  matching throws, the state is the one before the call.
\<close>

lemma load_failure_atomic:
  assumes "resolveCoords json = Inr []"
  shows "loadTrackData json filename e s = NoTrackDataFound (s\<lparr>loadingVisible := False\<rparr>)
       \<and> readerOnload (Some json) filename e s =
           Shown CouldNotFindTrackData (s\<lparr>loadingVisible := False\<rparr>)"
  using assms by (simp add: readerOnload_def loadTrackData_def showLoading_def)

lemma load_throw_atomic:
  assumes "resolveCoords json = Inl err"
  shows "loadTrackData json filename e s = Threw err s"
  using assms by (simp add: loadTrackData_def)

text \<open>
  C2 at the documents \<^verbatim>\<open>null\<close> and \<^verbatim>\<open>{"coordinates": 5}\<close>, which match no shape:
  \<^verbatim>\<open>loadTrackData\<close> throws a \<^verbatim>\<open>TypeError\<close> (at \<^verbatim>\<open>json.data\<close> on line 198, at
  \<^verbatim>\<open>json.coordinates.map\<close> on line 209) before it touches the state, line 213 is not
  reached, and the handler reports a parse error.
\<close>

theorem load_null_throws:
  "loadTrackData JNull filename e s = Threw TypeError s
   \<and> readerOnload (Some JNull) filename e s = Shown ErrorParsingJSON (showLoading False s)
   \<and> loadTrackData (JObj [(''coordinates'', JNum 5)]) filename e s = Threw TypeError s
   \<and> readerOnload (Some (JObj [(''coordinates'', JNum 5)])) filename e s =
       Shown ErrorParsingJSON (showLoading False s)"
  by (simp add: readerOnload_def loadTrackData_def resolveCoords_def)

section \<open>Elevation statistics\<close>

lemma elevationStep_gain:
  "elevationGain (elevationStep coords acc i) =
     elevationGain acc + (if 0 < i then ascent coords i else 0)"
  by (simp add: elevationStep_def ascent_def Let_def)

lemma elevationGain_upt:
  "elevationGain (foldl (elevationStep coords) acc [0..<k]) =
     elevationGain acc + sum (ascent coords) {1..<k}"
proof (induction k)
  case 0
  then show ?case by simp
next
  case (Suc k)
  show ?case
  proof (cases "k = 0")
    case True
    then show ?thesis by (simp add: elevationStep_gain)
  next
    case False
    then have "1 \<le> k" by simp
    then show ?thesis using Suc by (simp add: elevationStep_gain sum.atLeastLessThan_Suc)
  qed
qed


text \<open>
  C6. On a track of one point both loops of \<^verbatim>\<open>updateStats\<close> run to their end (the model
  has no failing branch): the total distance is 0, the gain is 0, and the minimum and the
  maximum are the elevation of the point.
\<close>

theorem single_point_stats:
  "totalDistance M [p] = Finite 0
   \<and> elevationGain (elevationScan [p]) = 0
   \<and> minElev (elevationScan [p]) = Finite (ele p)
   \<and> maxElev (elevationScan [p]) = Finite (ele p)"
  by (simp add: totalDistance_def elevationScan_def elevationStep_def Let_def)

section \<open>Distances on the sample platform\<close>

lemma sampleSin_odd: "sampleSin (- x) = - sampleSin x"
  by (simp add: sampleSin_def sgn_minus)

lemma sampleCos_bound: "\<bar>sampleCos x\<bar> \<le> 1"
  by (simp add: sampleCos_def)

lemma sampleMath_odd: "\<forall>x. approxSin sampleMath (- x) = - approxSin sampleMath x"
  by (simp add: sampleMath_def sampleSin_odd)

lemma sampleMath_bound: "\<forall>x. \<bar>approxCos sampleMath x\<bar> \<le> 1"
  by (simp add: sampleMath_def sampleCos_bound)

lemma distance_origin: "haversineDistance sampleMath 0 0 0 0 = Finite 0"
  by (rule haversineDistance_same [OF sampleMath_bound]) simp

lemma distance_half_turn:
  "haversineDistance sampleMath 0 0 0 180 = Finite (5372758950969361 / 2 ^ 28)"
  unfolding haversineDistance_def
  by (simp only: haversineA_half_turn centralAngle_one earth_half_turn)

lemma distance_37:
  "haversineDistance sampleMath 0 0 0 37 = Finite (1104400451032591 / 2 ^ 28)"
  unfolding haversineDistance_def
  by (simp only: haversineA_37 centralAngle_37 earth_37)

lemma distance_overshoot: "haversineDistance sampleMath (- 12) (- 179) 12 1 = NaN"
  unfolding haversineDistance_def
  by (simp only: haversineA_overshoot centralAngle_overshoot fmul_NaN_right)

lemma distance_underflow: "haversineDistance sampleMath 0 0 0 (1 / 2 ^ 600) = Finite 0"
  unfolding haversineDistance_def
  by (simp only: haversineA_underflow centralAngle_zero) simp

lemma totalDistance_two:
  "totalDistance M [p, q] =
     fadd (Finite 0) (haversineDistance M (lat p) (lon p) (lat q) (lon q))"
  by (simp add: totalDistance_sum)

lemma distances_two:
  "distances M [p, q] =
     [Finite 0,
      fdiv (fadd (Finite 0) (haversineDistance M (lat p) (lon p) (lat q) (lon q)))
           (Finite 1000)]"
  by (simp add: distances_def chartLoop_eq)

lemma totalDistance_37: "totalDistance sampleMath track37 = Finite (1104400451032591 / 2 ^ 28)"
  unfolding track37_def totalDistance_two
  by (simp only: point.select_convs distance_37 add_37)

lemma distances_37:
  "distances sampleMath track37 = [Finite 0, Finite (4523624247429493 / 2 ^ 40)]"
  unfolding track37_def distances_two
  by (simp only: point.select_convs distance_37 add_37 km_37)

lemma last_distances_37:
  "last (distances sampleMath track37) = Finite (4523624247429493 / 2 ^ 40)"
  unfolding distances_37 by simp

section \<open>The two distance loops\<close>

text \<open>
  C5. For a track of \<open>n\<close> points, \<open>n\<close> not zero, \<^verbatim>\<open>distances\<close> has \<open>n\<close> entries, the
  first is 0, and entry \<open>i\<close> is the sum, added up from 0 from the left, of the distances
  \<^verbatim>\<open>haversineDistance\<close> gives for the first \<open>i\<close> pairs of consecutive points, divided by
  1000.
\<close>

theorem cumulative_series:
  assumes "coords \<noteq> []"
  shows "length (distances M coords) = length coords
       \<and> distances M coords ! 0 = Finite 0
       \<and> (\<forall>i < length coords.
            distances M coords ! i =
              fdiv (foldl fadd (Finite 0)
                      (map (\<lambda>j. haversineDistance M
                                   (lat (coords ! (j - 1))) (lon (coords ! (j - 1)))
                                   (lat (coords ! j)) (lon (coords ! j)))
                           [1..<Suc i]))
                   (Finite 1000))"
proof (intro conjI allI impI)
  from assms have "0 < length coords" by simp
  then show "length (distances M coords) = length coords"
    by (simp add: distances_def chartLoop_eq)
  show "distances M coords ! 0 = Finite 0" by (simp add: distances_def chartLoop_eq)
  fix i assume i: "i < length coords"
  show "distances M coords ! i =
          fdiv (foldl fadd (Finite 0)
                  (map (\<lambda>j. haversineDistance M
                               (lat (coords ! (j - 1))) (lon (coords ! (j - 1)))
                               (lat (coords ! j)) (lon (coords ! j)))
                       [1..<Suc i]))
               (Finite 1000)"
  proof (cases i)
    case 0
    then show ?thesis by (simp add: distances_def chartLoop_eq)
  next
    case (Suc k)
    with i have "k < length coords - 1" by simp
    then have "[1..<length coords] ! k = Suc k" by simp
    with Suc i show ?thesis by (simp add: distances_def chartLoop_eq)
  qed
qed

theorem cumulative_series_witness:
  "track37 \<noteq> []
   \<and> length (distances sampleMath track37) = 2
   \<and> distances sampleMath track37 ! 0 = Finite 0
   \<and> (1::nat) < length track37
   \<and> distances sampleMath track37 ! 1 = Finite (4523624247429493 / 2 ^ 40)"
proof -
  have n: "track37 \<noteq> []" "(1::nat) < length track37" by (simp_all add: track37_def)
  have "length (distances sampleMath track37) = length track37"
    using cumulative_series [of track37 sampleMath] n by blast
  then have l: "length (distances sampleMath track37) = 2" by (simp add: track37_def)
  have "distances sampleMath track37 ! 0 = Finite 0"
       "distances sampleMath track37 ! 1 = Finite (4523624247429493 / 2 ^ 40)"
    unfolding distances_37 by simp_all
  with n l show ?thesis by blast
qed

text \<open>
  C10, as the code has it. Both loops add up the same distances in the same order: the
  running total of \<^verbatim>\<open>drawElevationChart\<close> ends at the total distance of
  \<^verbatim>\<open>updateStats\<close>, and the last entry of \<^verbatim>\<open>distances\<close> is that total divided by 1000,
  the quotient rounded. On a track of one point both are 0.
\<close>

theorem loops_agree:
  assumes "coords \<noteq> []"
  shows "snd (chartLoop M coords) = totalDistance M coords
       \<and> last (distances M coords) = fdiv (totalDistance M coords) (Finite 1000)
       \<and> (length coords = 1 \<longrightarrow>
            totalDistance M coords = Finite 0 \<and> last (distances M coords) = Finite 0)"
proof (intro conjI impI)
  show "snd (chartLoop M coords) = totalDistance M coords" by (simp add: chartLoop_eq)
  show l: "last (distances M coords) = fdiv (totalDistance M coords) (Finite 1000)"
  proof (cases "length coords = 1")
    case True
    then show ?thesis by (simp add: distances_def chartLoop_eq totalDistance_sum)
  next
    case False
    moreover from assms have "length coords \<noteq> 0" by simp
    ultimately have n: "1 < length coords" by arith
    then have ne: "[1..<length coords] \<noteq> []" by auto
    have l: "last [1..<length coords] = length coords - 1"
      using n by (metis last_upt)
    have m: "Suc (length coords - 1) = length coords" using n by simp
    let ?F = "\<lambda>i. fdiv (foldl fadd (Finite 0)
                 (map (\<lambda>j. haversineDistance M (lat (coords ! (j - 1))) (lon (coords ! (j - 1)))
                                                (lat (coords ! j)) (lon (coords ! j)))
                      [1..<Suc i])) (Finite 1000)"
    have d: "distances M coords = Finite 0 # map ?F [1..<length coords]"
      by (simp add: distances_def chartLoop_eq)
    have mne: "map ?F [1..<length coords] \<noteq> []" using ne by simp
    have "last (distances M coords) = last (map ?F [1..<length coords])"
      unfolding d using mne by (rule last_ConsR)
    also have "\<dots> = ?F (last [1..<length coords])" using ne by (rule last_map)
    also have "\<dots> = fdiv (totalDistance M coords) (Finite 1000)"
      by (simp only: l m totalDistance_sum)
    finally show ?thesis .
  qed
  assume "length coords = 1"
  then show "totalDistance M coords = Finite 0" by (simp add: totalDistance_sum)
  with l show "last (distances M coords) = Finite 0" by simp
qed

theorem loops_agree_witness:
  "track37 \<noteq> []
   \<and> snd (chartLoop sampleMath track37) = Finite (1104400451032591 / 2 ^ 28)
   \<and> last (distances sampleMath track37) = Finite (4523624247429493 / 2 ^ 40)
   \<and> length trackA = 1
   \<and> totalDistance sampleMath trackA = Finite 0
   \<and> last (distances sampleMath trackA) = Finite 0"
proof -
  have n: "track37 \<noteq> []" "trackA \<noteq> []" "length trackA = 1"
    by (simp_all add: track37_def trackA_def)
  have "snd (chartLoop sampleMath track37) = totalDistance sampleMath track37"
       "last (distances sampleMath track37) =
          fdiv (totalDistance sampleMath track37) (Finite 1000)"
    using loops_agree [of track37 sampleMath] n by blast+
  then have a: "snd (chartLoop sampleMath track37) = Finite (1104400451032591 / 2 ^ 28)"
       "last (distances sampleMath track37) = Finite (4523624247429493 / 2 ^ 40)"
    by (simp_all only: totalDistance_37 km_37)
  have "totalDistance sampleMath trackA = Finite 0 \<and> last (distances sampleMath trackA) = Finite 0"
    using loops_agree [of trackA sampleMath] n by blast
  with a n show ?thesis by blast
qed

text \<open>
  C10 as stated fails on the track of two points 37 degrees apart on the equator: the
  last entry of \<^verbatim>\<open>distances\<close> is the total distance divided by 1000 and rounded, and 1000
  times that entry, rounded, is the double after the total distance.
\<close>

theorem loops_agree_counterexample:
  "totalDistance sampleMath track37 = Finite (1104400451032591 / 2 ^ 28)
   \<and> last (distances sampleMath track37) = Finite (4523624247429493 / 2 ^ 40)
   \<and> fmul (Finite 1000) (last (distances sampleMath track37)) =
       Finite (8835203608260729 / 2 ^ 31)
   \<and> fmul (Finite 1000) (last (distances sampleMath track37)) \<noteq>
       totalDistance sampleMath track37"
proof -
  have "(8835203608260729 / 2 ^ 31 :: real) \<noteq> 1104400451032591 / 2 ^ 28" by simp
  then have "Finite (8835203608260729 / 2 ^ 31) \<noteq> Finite (1104400451032591 / 2 ^ 28)"
    by (simp only: jsnum.inject not_False_eq_True)
  then show ?thesis by (simp only: totalDistance_37 last_distances_37 back_37 simp_thms)
qed

section \<open>Great-circle distance\<close>

text \<open>
  C8, as the code has it. Line 346 takes the square roots of \<^verbatim>\<open>a\<close> and of \<^verbatim>\<open>1 - a\<close> as
  they are. When \<^verbatim>\<open>a\<close> is above 1, \<^verbatim>\<open>1 - a\<close> is negative, its square root is \<^verbatim>\<open>NaN\<close>
  and so is the distance. When \<^verbatim>\<open>a\<close> is between 0 and 1, so is \<^verbatim>\<open>1 - a\<close>, and the
  distance is not \<^verbatim>\<open>NaN\<close>.
\<close>

theorem no_clamp:
  "(haversineA M lat1 lon1 lat2 lon2 = Finite a \<and> 1 < a \<longrightarrow>
      mathSqrt (fsub (Finite 1) (haversineA M lat1 lon1 lat2 lon2)) = NaN
      \<and> haversineDistance M lat1 lon1 lat2 lon2 = NaN)
   \<and> (haversineA M lat1 lon1 lat2 lon2 = Finite a \<and> 0 \<le> a \<and> a \<le> 1 \<longrightarrow>
      (\<exists>b. fsub (Finite 1) (haversineA M lat1 lon1 lat2 lon2) = Finite b \<and> 0 \<le> b \<and> b \<le> 1)
      \<and> haversineDistance M lat1 lon1 lat2 lon2 \<noteq> NaN)"
proof (intro conjI impI)
  assume h: "haversineA M lat1 lon1 lat2 lon2 = Finite a \<and> 1 < a"
  then have "mathSqrt (fsub (Finite 1) (Finite a)) = NaN"
    using one_minus_overshoot by blast
  with h show s: "mathSqrt (fsub (Finite 1) (haversineA M lat1 lon1 lat2 lon2)) = NaN"
    by simp
  then show "haversineDistance M lat1 lon1 lat2 lon2 = NaN"
    by (simp add: haversineDistance_def centralAngle_def)
next
  assume h: "haversineA M lat1 lon1 lat2 lon2 = Finite a \<and> 0 \<le> a \<and> a \<le> 1"
  then obtain b where "fsub (Finite 1) (Finite a) = Finite b" "0 \<le> b" "b \<le> 1"
    using one_minus_in_range by blast
  with h show "\<exists>b. fsub (Finite 1) (haversineA M lat1 lon1 lat2 lon2) = Finite b
                 \<and> 0 \<le> b \<and> b \<le> 1"
    by simp
  from h have "centralAngle M (Finite a) \<noteq> NaN" using centralAngle_in_range by blast
  with h show "haversineDistance M lat1 lon1 lat2 lon2 \<noteq> NaN"
    unfolding haversineDistance_def by (simp add: fmul_pos_not_NaN)
qed

theorem no_clamp_witness:
  "haversineA sampleMath (- 12) (- 179) 12 1 = Finite (4503599627370497 / 2 ^ 52)
   \<and> (1::real) < 4503599627370497 / 2 ^ 52
   \<and> mathSqrt (fsub (Finite 1) (haversineA sampleMath (- 12) (- 179) 12 1)) = NaN
   \<and> haversineDistance sampleMath (- 12) (- 179) 12 1 = NaN
   \<and> haversineA sampleMath 0 0 0 180 = Finite 1
   \<and> fsub (Finite 1) (haversineA sampleMath 0 0 0 180) = Finite 0
   \<and> haversineDistance sampleMath 0 0 0 180 \<noteq> NaN"
proof -
  have g: "(1::real) < 4503599627370497 / 2 ^ 52" by simp
  have "mathSqrt (fsub (Finite 1) (haversineA sampleMath (- 12) (- 179) 12 1)) = NaN
        \<and> haversineDistance sampleMath (- 12) (- 179) 12 1 = NaN"
    using no_clamp [of sampleMath "- 12" "- 179" 12 1 "4503599627370497 / 2 ^ 52"]
      haversineA_overshoot g by blast
  moreover have "haversineDistance sampleMath 0 0 0 180 \<noteq> NaN"
    using no_clamp [of sampleMath 0 0 0 180 1] haversineA_half_turn by simp
  moreover have "fsub (Finite 1) (haversineA sampleMath 0 0 0 180) = Finite 0"
    by (simp add: haversineA_half_turn fsub_def)
  ultimately show ?thesis using haversineA_overshoot haversineA_half_turn g by blast
qed

text \<open>
  C8 as stated fails between the points (-12, -179) and (12, 1), which are opposite on
  the sphere: \<^verbatim>\<open>a\<close> is the double after 1, nothing brings it back to 1, \<^verbatim>\<open>1 - a\<close> is
  negative, and the distance is \<^verbatim>\<open>NaN\<close>.
\<close>

theorem no_clamp_counterexample:
  "haversineA sampleMath (- 12) (- 179) 12 1 = Finite (4503599627370497 / 2 ^ 52)
   \<and> (1::real) < 4503599627370497 / 2 ^ 52
   \<and> fsub (Finite 1) (haversineA sampleMath (- 12) (- 179) 12 1) = Finite (- 1 / 2 ^ 52)
   \<and> mathSqrt (Finite (- 1 / 2 ^ 52)) = NaN
   \<and> haversineDistance sampleMath (- 12) (- 179) 12 1 = NaN"
proof -
  have "(1::real) < 4503599627370497 / 2 ^ 52" by simp
  moreover have "mathSqrt (Finite (- 1 / 2 ^ 52)) = NaN" by simp
  moreover have "fsub (Finite 1) (haversineA sampleMath (- 12) (- 179) 12 1) =
      Finite (- 1 / 2 ^ 52)"
    by (simp only: haversineA_overshoot one_minus_overshoot_value)
  ultimately show ?thesis using haversineA_overshoot distance_overshoot by blast
qed




section \<open>Distance to the trail\<close>

lemma installTrack_keeps:
  "distanceIndicator (installTrack pts filename e s) = distanceIndicator s"
  "userPosition (installTrack pts filename e s) = userPosition s"
  "trackData (installTrack pts filename e s) = pts"
  by (simp_all add: installTrack_def startGPSTracking_def updateGPSStatus_def showLoading_def
      drawElevationChart_def updateStats_def drawTrack_def Let_def)

lemma stateWithFix_track: "trackData stateWithFix = trackA"
  by (simp add: stateWithFix_def onPositionUpdate_def updateGPSStatus_def
      updateDistanceIndicator_def installTrack_keeps Let_def)

lemma stateWithFix_position: "userPosition stateWithFix = Some fix0"
  by (simp add: stateWithFix_def onPositionUpdate_def updateGPSStatus_def
      updateDistanceIndicator_def Let_def)

lemma getDistanceToTrail_single:
  "trackData s = [q] \<Longrightarrow>
   getDistanceToTrail M la lo s =
     (if lt (haversineDistance M la lo (lat q) (lon q)) Infinity
      then haversineDistance M la lo (lat q) (lon q) else Infinity)"
  by (simp add: getDistanceToTrail_def nearer_def Let_def)

lemma distance_to_A: "getDistanceToTrail sampleMath 0 0 stateWithFix = Finite 0"
  by (simp add: getDistanceToTrail_single [of _ "\<lparr>lat = 0, lon = 0, ele = 0\<rparr>"]
      stateWithFix_track trackA_def distance_origin)

lemma stateWithFix_indicator:
  "distanceIndicator stateWithFix =
     \<lparr>hidden = False, valueText = [Round (Finite 0), Lit ''m''], valueColor = ''#10b981''\<rparr>"
proof -
  have "getDistanceToTrail sampleMath 0 0 (installTrack trackA ''a.json'' env0 initialState) =
          Finite 0"
    by (simp add: getDistanceToTrail_single [of _ "\<lparr>lat = 0, lon = 0, ele = 0\<rparr>"]
        installTrack_keeps trackA_def distance_origin)
  then show ?thesis
    by (simp add: stateWithFix_def onPositionUpdate_indicator installTrack_keeps trackA_def
        fix0_def updateDistanceIndicator_def)
qed

text \<open>
  C3, as the code has it. \<^verbatim>\<open>getDistanceToTrail\<close> has no failing branch and never returns
  \<^verbatim>\<open>NaN\<close>. Its result is \<^verbatim>\<open>Infinity\<close> or the distance to a vertex, and the distance to
  no vertex is less than it: a distance that is \<^verbatim>\<open>NaN\<close> is less than nothing and is
  passed over. So on a non-empty track without such a distance the result is the least of
  the distances to the vertices, and when every distance is \<^verbatim>\<open>NaN\<close> it is \<^verbatim>\<open>Infinity\<close>.
  On an empty track it is \<^verbatim>\<open>Infinity\<close>; \<^verbatim>\<open>onPositionUpdate\<close> does not call it then and
  leaves the distance indicator as it was.
\<close>

theorem nearest_vertex:
  "getDistanceToTrail M la lo s \<noteq> NaN
   \<and> (getDistanceToTrail M la lo s = Infinity
      \<or> getDistanceToTrail M la lo s
           \<in> (\<lambda>p. haversineDistance M la lo (lat p) (lon p)) ` set (trackData s))
   \<and> (\<forall>p \<in> set (trackData s).
         \<not> lt (haversineDistance M la lo (lat p) (lon p)) (getDistanceToTrail M la lo s))
   \<and> (trackData s \<noteq> []
        \<and> (\<forall>p \<in> set (trackData s). haversineDistance M la lo (lat p) (lon p) \<noteq> NaN) \<longrightarrow>
      getDistanceToTrail M la lo s
        \<in> (\<lambda>p. haversineDistance M la lo (lat p) (lon p)) ` set (trackData s))
   \<and> ((\<forall>p \<in> set (trackData s). haversineDistance M la lo (lat p) (lon p) = NaN) \<longrightarrow>
      getDistanceToTrail M la lo s = Infinity)
   \<and> (trackData s = [] \<longrightarrow>
      getDistanceToTrail M la lo s = Infinity
      \<and> distanceIndicator (onPositionUpdate M fix s) = distanceIndicator s)"
proof -
  let ?r = "getDistanceToTrail M la lo s"
  let ?d = "\<lambda>p. haversineDistance M la lo (lat p) (lon p)"
  note l = getDistanceToTrail_least [of M la lo s]
  have 1: "?r \<noteq> NaN" and 2: "?r = Infinity \<or> ?r \<in> ?d ` set (trackData s)"
    and 3: "\<forall>p \<in> set (trackData s). \<not> lt (?d p) ?r"
    using l by blast+
  have 4: "?r \<in> ?d ` set (trackData s)"
    if "trackData s \<noteq> [] \<and> (\<forall>p \<in> set (trackData s). ?d p \<noteq> NaN)"
  proof (cases "?r = Infinity")
    case True
    from that obtain q where q: "q \<in> set (trackData s)" by (cases "trackData s") auto
    with that 3 True have "?d q \<noteq> NaN" "\<not> lt (?d q) Infinity" by auto
    then have "?d q = Infinity" by (cases "?d q") simp_all
    with q True show ?thesis by force
  next
    case False
    with 2 show ?thesis by blast
  qed
  have 5: "?r = Infinity" if "\<forall>p \<in> set (trackData s). ?d p = NaN"
    using that 1 2 by force
  have 6: "?r = Infinity \<and> distanceIndicator (onPositionUpdate M fix s) = distanceIndicator s"
    if "trackData s = []"
    using that by (simp add: getDistanceToTrail_def onPositionUpdate_indicator)
  from 1 2 3 4 5 6 show ?thesis by blast
qed

theorem nearest_vertex_witness:
  "trackData initialState = []
   \<and> getDistanceToTrail sampleMath 0 0 initialState = Infinity
   \<and> distanceIndicator (onPositionUpdate sampleMath fix0 initialState) =
       distanceIndicator initialState
   \<and> trackData stateWithFix = [\<lparr>lat = 0, lon = 0, ele = 0\<rparr>]
   \<and> haversineDistance sampleMath 0 0 0 0 = Finite 0
   \<and> getDistanceToTrail sampleMath 0 0 stateWithFix = Finite 0
   \<and> trackData (initialState\<lparr>trackData := [\<lparr>lat = 12, lon = 1, ele = 0\<rparr>]\<rparr>) =
       [\<lparr>lat = 12, lon = 1, ele = 0\<rparr>]
   \<and> haversineDistance sampleMath (- 12) (- 179) 12 1 = NaN
   \<and> getDistanceToTrail sampleMath (- 12) (- 179)
        (initialState\<lparr>trackData := [\<lparr>lat = 12, lon = 1, ele = 0\<rparr>]\<rparr>) = Infinity"
proof -
  have e: "trackData initialState = []" by (simp add: initialState_def)
  have a: "getDistanceToTrail sampleMath 0 0 initialState = Infinity
      \<and> distanceIndicator (onPositionUpdate sampleMath fix0 initialState) =
          distanceIndicator initialState"
    using nearest_vertex [of sampleMath 0 0 initialState fix0] e by blast
  have t: "trackData stateWithFix = [\<lparr>lat = 0, lon = 0, ele = 0\<rparr>]"
    by (simp add: stateWithFix_track trackA_def)
  have "getDistanceToTrail sampleMath 0 0 stateWithFix
          \<in> (\<lambda>p. haversineDistance sampleMath 0 0 (lat p) (lon p)) ` set (trackData stateWithFix)"
    using nearest_vertex [of sampleMath 0 0 stateWithFix fix0]
    by (simp add: t distance_origin)
  then have b: "getDistanceToTrail sampleMath 0 0 stateWithFix = Finite 0"
    by (simp add: t distance_origin)
  have "getDistanceToTrail sampleMath (- 12) (- 179)
          (initialState\<lparr>trackData := [\<lparr>lat = 12, lon = 1, ele = 0\<rparr>]\<rparr>) = Infinity"
    using nearest_vertex [of sampleMath "- 12" "- 179"
        "initialState\<lparr>trackData := [\<lparr>lat = 12, lon = 1, ele = 0\<rparr>]\<rparr>" fix0]
    by (simp add: distance_overshoot)
  with e a t b show ?thesis using distance_origin distance_overshoot by simp
qed

text \<open>
  C3 as stated fails on the empty track: the call returns the number \<^verbatim>\<open>Infinity\<close>, it
  does not fail.
\<close>

theorem nearest_empty_counterexample:
  "trackData initialState = [] \<and> getDistanceToTrail sampleMath 0 0 initialState = Infinity"
  by (simp add: initialState_def getDistanceToTrail_def)

section \<open>Successful loads\<close>

lemma toTrack_length: "toTrack vs = Some ps \<Longrightarrow> length ps = length vs"
  by (induction vs arbitrary: ps) (auto split: option.splits)

lemma loaded_installs:
  assumes "loadTrackData json filename e s = Loaded s'"
  shows "\<exists>pts. pts \<noteq> [] \<and> s' = installTrack pts filename e s"
proof -
  from assms obtain coords pts where
    c: "resolveCoords json = Inr coords" "length coords \<noteq> 0" "toTrack coords = Some pts"
    and s': "s' = installTrack pts filename e s"
    by (auto simp: loadTrackData_def split: sum.splits if_splits option.splits)
  from c have "pts \<noteq> []" using toTrack_length by fastforce
  with s' show ?thesis by blast
qed

lemma load_A:
  "loadTrackData (JArr [pointA]) ''a.json'' env0 initialState =
     Loaded (installTrack trackA ''a.json'' env0 initialState)"
  by (simp add: loadTrackData_def resolveCoords_def pointA_def toPoint_def trackA_def)

lemma load_B:
  "loadTrackData (JArr [pointB]) ''b.json'' env0 s =
     Loaded (installTrack trackB ''b.json'' env0 s)"
  by (simp add: loadTrackData_def resolveCoords_def pointB_def toPoint_def trackB_def)

lemma distance_to_B:
  "getDistanceToTrail sampleMath (posLat fix0) (posLon fix0)
     (installTrack trackB ''b.json'' env0 s) = Finite (5372758950969361 / 2 ^ 28)"
proof -
  have "trackData (installTrack trackB ''b.json'' env0 s) = [\<lparr>lat = 0, lon = 180, ele = 0\<rparr>]"
    by (simp add: installTrack_keeps trackB_def)
  then have "getDistanceToTrail sampleMath 0 0 (installTrack trackB ''b.json'' env0 s) =
      (if lt (haversineDistance sampleMath 0 0 0 180) Infinity
       then haversineDistance sampleMath 0 0 0 180 else Infinity)"
    using getDistanceToTrail_single [of _ "\<lparr>lat = 0, lon = 180, ele = 0\<rparr>" sampleMath 0 0]
    by simp
  also have "\<dots> = Finite (5372758950969361 / 2 ^ 28)"
    by (simp only: distance_half_turn lt.simps if_True)
  finally show ?thesis by (simp only: fix0_def position.select_convs)
qed

lemma indicator_at_B:
  "distanceIndicator (updateDistanceIndicator (Finite (5372758950969361 / 2 ^ 28)) s) =
     \<lparr>hidden = False, valueText = [ToFixed 1 (Finite (2750852582896313 / 2 ^ 37)), Lit ''km''],
      valueColor = ''#f59e0b''\<rparr>"
proof -
  have "\<not> lt (Finite (5372758950969361 / 2 ^ 28)) (Finite 1000)"
       "\<not> lt (Finite (5372758950969361 / 2 ^ 28)) (Finite 50)"
       "\<not> lt (Finite (5372758950969361 / 2 ^ 28)) (Finite 200)"
    by simp_all
  then show ?thesis
    unfolding updateDistanceIndicator_def
    by (simp only: half_turn_km if_False) simp
qed

text \<open>
  C9, as the code has it. A successful load stores a non-empty track and leaves the
  stored fix and the distance indicator exactly as they were; the indicator is computed
  from the new track by the next call of \<^verbatim>\<open>onPositionUpdate\<close>, that is, when the next
  fix arrives.
\<close>

theorem load_keeps_indicator:
  assumes "loadTrackData json filename e s = Loaded s'"
  shows "distanceIndicator s' = distanceIndicator s
       \<and> userPosition s' = userPosition s
       \<and> trackData s' \<noteq> []
       \<and> distanceIndicator (onPositionUpdate M p s') =
           distanceIndicator
             (updateDistanceIndicator (getDistanceToTrail M (posLat p) (posLon p) s') s')"
proof -
  from assms obtain pts where pts: "pts \<noteq> []" "s' = installTrack pts filename e s"
    using loaded_installs by blast
  then have t: "trackData s' \<noteq> []" by (simp add: installTrack_keeps)
  from pts t show ?thesis by (simp add: installTrack_keeps onPositionUpdate_indicator)
qed

theorem load_keeps_indicator_witness:
  "loadTrackData (JArr [pointB]) ''b.json'' env0 stateWithFix =
     Loaded (installTrack trackB ''b.json'' env0 stateWithFix)
   \<and> distanceIndicator (installTrack trackB ''b.json'' env0 stateWithFix) =
       \<lparr>hidden = False, valueText = [Round (Finite 0), Lit ''m''], valueColor = ''#10b981''\<rparr>
   \<and> userPosition (installTrack trackB ''b.json'' env0 stateWithFix) = Some fix0
   \<and> distanceIndicator
        (onPositionUpdate sampleMath fix0 (installTrack trackB ''b.json'' env0 stateWithFix)) =
       \<lparr>hidden = False,
        valueText = [ToFixed 1 (Finite (2750852582896313 / 2 ^ 37)), Lit ''km''],
        valueColor = ''#f59e0b''\<rparr>"
proof -
  note k = load_keeps_indicator [OF load_B, of stateWithFix sampleMath fix0]
  have 1: "distanceIndicator (installTrack trackB ''b.json'' env0 stateWithFix) =
       \<lparr>hidden = False, valueText = [Round (Finite 0), Lit ''m''], valueColor = ''#10b981''\<rparr>"
    using k by (simp only: stateWithFix_indicator)
  have 2: "userPosition (installTrack trackB ''b.json'' env0 stateWithFix) = Some fix0"
    using k by (simp only: stateWithFix_position)
  have 3: "distanceIndicator
        (onPositionUpdate sampleMath fix0 (installTrack trackB ''b.json'' env0 stateWithFix)) =
       \<lparr>hidden = False,
        valueText = [ToFixed 1 (Finite (2750852582896313 / 2 ^ 37)), Lit ''km''],
        valueColor = ''#f59e0b''\<rparr>"
    using k by (simp only: distance_to_B indicator_at_B)
  from 1 2 3 load_B show ?thesis by blast
qed

text \<open>
  C9 as stated fails. The first track is loaded into the initial state and a fix on it
  arrives: the indicator shows 0 m. A track half the equator away is then loaded: the
  fix is still stored, and the indicator still shows 0 m, not the distance from the fix
  to the new track.
\<close>

theorem load_keeps_indicator_counterexample:
  "loadTrackData (JArr [pointA]) ''a.json'' env0 initialState =
     Loaded (installTrack trackA ''a.json'' env0 initialState)
   \<and> stateWithFix =
       onPositionUpdate sampleMath fix0 (installTrack trackA ''a.json'' env0 initialState)
   \<and> userPosition stateWithFix = Some fix0
   \<and> loadTrackData (JArr [pointB]) ''b.json'' env0 stateWithFix =
       Loaded (installTrack trackB ''b.json'' env0 stateWithFix)
   \<and> distanceIndicator (installTrack trackB ''b.json'' env0 stateWithFix) \<noteq>
       distanceIndicator
         (updateDistanceIndicator
            (getDistanceToTrail sampleMath (posLat fix0) (posLon fix0)
               (installTrack trackB ''b.json'' env0 stateWithFix))
            (installTrack trackB ''b.json'' env0 stateWithFix))"
proof -
  have "distanceIndicator (installTrack trackB ''b.json'' env0 stateWithFix) \<noteq>
       distanceIndicator
         (updateDistanceIndicator
            (getDistanceToTrail sampleMath (posLat fix0) (posLon fix0)
               (installTrack trackB ''b.json'' env0 stateWithFix))
            (installTrack trackB ''b.json'' env0 stateWithFix))"
    unfolding distance_to_B indicator_at_B
    by (simp add: installTrack_keeps stateWithFix_indicator)
  then show ?thesis
    using load_A load_B stateWithFix_position stateWithFix_def by blast
qed

end
